theory Spec2Isabelle
  imports Complex_Main "HOL-Library.Sublist"
begin

section \<open>Hyperparameter tuning experiment (hyperparam-tuning/src/experiment.py)\<close>

text \<open>
  Python exceptions are values. \<open>Exception\<close> carries the message of a plain
  \<^verbatim>\<open>raise Exception(msg)\<close>; the others are the built-in exception classes that the
  modelled statements can raise. \<open>NanMean\<close> is not an exception of the source: it marks
  the one point where the model stops, \<^verbatim>\<open>np.mean\<close> of an empty array, which returns
  nan (with a RuntimeWarning) and leaves \<^verbatim>\<open>sorted\<close> without an order on its keys.
\<close>

datatype py_error =
    IndexError
  | ValueError
  | KeyError string
  | TypeError
  | AttributeError
  | FileNotFoundError
  | Exception string
  | NanMean

subsection \<open>Singleton proportion: \<open>Experiment.get_singleton_prop.get_prop\<close>\<close>

text \<open>
  An observation is a tuple of tokens as the triple store hands it out, modelled as the list
  of its components. The body of the \<^verbatim>\<open>for idx, (a, b) in enumerate(lst)\<close> loop
  works on the state (singleton_count, seen, singletons, totals); the tuple pattern
  \<^verbatim>\<open>(a, b)\<close> raises ValueError on an element that is not of length two, which is
  the \<open>unpack\<close> argument of the loop.
\<close>

type_synonym observation = "string list"

type_synonym 'k prop_state = "nat \<times> 'k set \<times> nat list \<times> nat list"

definition prop_step :: "nat \<Rightarrow> 'k \<Rightarrow> 'k prop_state \<Rightarrow> 'k prop_state" where
  "prop_step idx ab st =
     (case st of (singleton_count, seen, singletons, totals) \<Rightarrow>
        (let (singleton_count', seen') =
               (if ab \<notin> seen then (singleton_count + 1, insert ab seen)
                else (singleton_count, seen))
         in (singleton_count', seen', singletons @ [singleton_count'], totals @ [idx + 1])))"

fun prop_loop ::
  "('a \<Rightarrow> py_error + 'k) \<Rightarrow> nat \<Rightarrow> 'a list \<Rightarrow> 'k prop_state \<Rightarrow> py_error + 'k prop_state" where
  "prop_loop unpack idx [] st = Inr st"
| "prop_loop unpack idx (x # xs) st =
     (case unpack x of
        Inl e \<Rightarrow> Inl e
      | Inr ab \<Rightarrow> prop_loop unpack (idx + 1) xs (prop_step idx ab st))"

fun unpack_pair :: "observation \<Rightarrow> py_error + (string \<times> string)" where
  "unpack_pair [a, b] = Inr (a, b)"
| "unpack_pair _ = Inl ValueError"

definition wrap_pair :: "observation \<Rightarrow> py_error + (observation \<times> observation)" where
  "wrap_pair x = Inr (x, x)"

text \<open>
  \<^verbatim>\<open>np.array(singletons) / np.array(total)\<close>: elementwise true division of two integer
  arrays of the same length. numpy converts the integers to float64 and divides, and an
  IEEE division returns the exact quotient rounded to float64. \<open>fl\<close> is that rounding;
  it belongs to the floating-point unit, not to this file, and is a parameter of the model.
  A float64 value is written as the real number it denotes.
\<close>

definition np_divide :: "(real \<Rightarrow> real) \<Rightarrow> nat list \<Rightarrow> nat list \<Rightarrow> real list" where
  "np_divide fl singletons totals = map (\<lambda>(s, t). fl (real s / real t)) (zip singletons totals)"

definition prop_init :: "'k prop_state" where
  "prop_init = (0, {}, [], [])"

definition prop_result :: "(real \<Rightarrow> real) \<Rightarrow> py_error + 'k prop_state \<Rightarrow> py_error + real list" where
  "prop_result fl r =
     (case r of
        Inl e \<Rightarrow> Inl e
      | Inr (singleton_count, seen, singletons, totals) \<Rightarrow> Inr (np_divide fl singletons totals))"

text \<open>
  \<^verbatim>\<open>len(lst[0])\<close> is evaluated before anything else, so the empty list raises
  IndexError. When the first observation has length one, every element \<open>x\<close> is replaced by
  the pair \<open>(x, x)\<close>; otherwise the elements themselves are unpacked as pairs.
\<close>

definition get_prop :: "(real \<Rightarrow> real) \<Rightarrow> observation list \<Rightarrow> py_error + real list" where
  "get_prop fl lst =
     (case lst of
        [] \<Rightarrow> Inl IndexError
      | x0 # _ \<Rightarrow>
          (if length x0 = 1
           then prop_result fl (prop_loop wrap_pair 0 lst prop_init)
           else prop_result fl (prop_loop unpack_pair 0 lst prop_init)))"

subsection \<open>Configuration and session construction: \<open>Config\<close>, \<open>Experiment.__init__\<close>\<close>

text \<open>
  A value of the \<^verbatim>\<open>input_space\<close> dictionary either is a Python list or is not; the
  source only asks \<^verbatim>\<open>isinstance(val, list)\<close>. The dictionary itself keeps its
  insertion order, so it is an association list.
\<close>

datatype 'a pyval = PyList "'a list" | NotAList

type_synonym 'a input_space = "(string \<times> 'a pyval) list"

text \<open>
  \<open>child_dists\<close> is \<open>None\<close> when the attribute was never assigned:
  \<^verbatim>\<open>Config.__init__\<close> assigns it only when the argument is None.
\<close>

record 'a config =
  distribution :: string
  input_space :: "'a input_space"
  base_file :: string
  data_folder :: string
  child_dists :: "string list option"

definition default_input_space :: "real input_space" where
  "default_input_space =
     [(''Strength'', PyList (map (\<lambda>i. 50 * real i) [0..<21])),
      (''Discount'', PyList (map (\<lambda>i. real i / 10) [0..<10]))]"

definition Config_init ::
  "string \<Rightarrow> real input_space option \<Rightarrow> string \<Rightarrow> string \<Rightarrow> string list option \<Rightarrow> real config" where
  "Config_init dn inp bf df cd =
     \<lparr> distribution = dn,
       input_space = (case inp of None \<Rightarrow> default_input_space | Some i \<Rightarrow> i),
       base_file = bf,
       data_folder = df,
       child_dists = (case cd of None \<Rightarrow> Some [dn] | Some _ \<Rightarrow> None) \<rparr>"

text \<open>
  The file system: the directories that exist and the text files with their contents.
  \<^verbatim>\<open>os.makedirs\<close> creates the directory and every missing ancestor.
\<close>

record filesystem =
  dirs :: "string set"
  files :: "string \<rightharpoonup> string"

definition path_exists :: "filesystem \<Rightarrow> string \<Rightarrow> bool" where
  "path_exists fs p = (p \<in> dirs fs \<or> files fs p \<noteq> None)"

definition ancestors :: "string \<Rightarrow> string list" where
  "ancestors p =
     filter (\<lambda>q. q \<noteq> [] \<and> (q = p \<or> p ! length q = CHR ''/'')) (prefixes p)"

definition makedirs :: "string \<Rightarrow> filesystem \<Rightarrow> filesystem" where
  "makedirs p fs = fs\<lparr>dirs := dirs fs \<union> set (ancestors p)\<rparr>"

fun create_paths :: "string list \<Rightarrow> filesystem \<Rightarrow> filesystem" where
  "create_paths [] fs = fs"
| "create_paths (p # ps) fs =
     create_paths ps (if \<not> path_exists fs p then makedirs p fs else fs)"

record 'a Experiment =
  exp_dist :: string
  name :: string
  exp_input_space :: "'a input_space"
  exp_child_dists :: "string list"
  data_path :: string
  exp_base_file :: string
  param_path :: string
  json_path :: string
  sh_path :: string
  output_path :: string
  mse_path :: string
  plot_path :: string

definition distributions :: "string list" where
  "distributions = [''nn'', ''vb'', ''nn.arg0'', ''nn.arg1'', ''nn.arg0.$y0'', ''nn.arg1.$y0'']"

definition get_param_path :: "'a Experiment \<Rightarrow> string \<Rightarrow> string" where
  "get_param_path e d = data_path e @ ''/parameters/'' @ d @ ''_params.txt''"

definition paths :: "'a Experiment \<Rightarrow> string list" where
  "paths e =
     [data_path e,
      data_path e @ ''/parameters'',
      json_path e,
      sh_path e,
      output_path e @ ''/'' @ name e,
      output_path e @ ''/'' @ name e @ '' modified'',
      mse_path e,
      plot_path e]"

definition lvl1_dist :: "string list" where "lvl1_dist = [''vb'', ''nn'']"
definition lvl2_dist :: "string list" where "lvl2_dist = [''nn.arg0'', ''nn.arg1'']"
definition lvl3_dist :: "string list" where "lvl3_dist = [''nn.arg0.y0'', ''nn.arg1.y0'']"

text \<open>The loops of the stage gate raise at the first prerequisite without a parameter list.\<close>

fun gate_loop :: "filesystem \<Rightarrow> 'a Experiment \<Rightarrow> string list \<Rightarrow> py_error + unit" where
  "gate_loop fs e [] = Inr ()"
| "gate_loop fs e (d # ds) =
     (if \<not> path_exists fs (get_param_path e d)
      then Inl (Exception (''Please tune '' @ d @ '' before '' @ name e))
      else gate_loop fs e ds)"

definition stage_gate :: "'a Experiment \<Rightarrow> filesystem \<Rightarrow> py_error + unit" where
  "stage_gate e fs =
     (case (if name e \<in> set lvl3_dist then gate_loop fs e (lvl1_dist @ lvl2_dist) else Inr ()) of
        Inl err \<Rightarrow> Inl err
      | Inr _ \<Rightarrow> (if name e \<in> set lvl2_dist then gate_loop fs e lvl1_dist else Inr ()))"

definition is_list :: "'a pyval \<Rightarrow> bool" where
  "is_list v = (case v of PyList _ \<Rightarrow> True | NotAList \<Rightarrow> False)"

text \<open>
  \<open>Experiment.initialize\<close>: the checks in the order of the source, then the directories,
  then the stage gate. The result is the exception raised, if any, and the file system as
  the call leaves it.
\<close>

definition initialize :: "'a Experiment \<Rightarrow> filesystem \<Rightarrow> (py_error + unit) \<times> filesystem" where
  "initialize e fs =
     (if exp_dist e \<notin> set distributions
      then (Inl (Exception (''config.distribution must be either '' @ [CHR 0x27] @ ''vb'' @ [CHR 0x27] @
                  '', '' @ [CHR 0x27] @ ''nn'' @ [CHR 0x27] @ '', '' @ [CHR 0x27] @ ''nn.arg0'' @ [CHR 0x27] @
                  '', '' @ [CHR 0x27] @ ''nn.arg1'' @ [CHR 0x27] @ '', '' @ [CHR 0x27] @ ''nn.arg0.$y0'' @
                  [CHR 0x27] @ '', or '' @ [CHR 0x27] @ ''nn.arg1.$y0'' @ [CHR 0x27])), fs)
      else if map fst (exp_input_space e) \<noteq> [''Strength'', ''Discount'']
      then (Inl (Exception ''config.input_space but have keys Strength/Discount''), fs)
      else if \<exists>v\<in>set (map snd (exp_input_space e)). \<not> is_list v
      then (Inl (Exception ''config.input_space values must be lists''), fs)
      else if \<not> path_exists fs (exp_base_file e)
      then (Inl (Exception (exp_base_file e @ '' path doesn'' @ [CHR 0x27] @ ''t exist'')), fs)
      else (let fs' = create_paths (paths e) fs in (stage_gate e fs', fs')))"

text \<open>
  \<open>Experiment.__init__\<close>, with the parent of the working directory (\<open>MAIN_PATH\<close>) as a
  parameter. Reading \<^verbatim>\<open>config.child_dists\<close> raises AttributeError when the
  attribute was never assigned. \<open>Experiment_fields\<close> is the object as the assignments
  before \<^verbatim>\<open>self.initialize()\<close> leave it.
\<close>

definition Experiment_fields :: "string \<Rightarrow> 'a config \<Rightarrow> string list \<Rightarrow> 'a Experiment" where
  "Experiment_fields main_path c cd =
     (let nm = filter (\<lambda>ch. ch \<noteq> CHR ''$'') (distribution c);
          dp = main_path @ ''/experiment_data/'' @ data_folder c
      in \<lparr> exp_dist = distribution c,
           name = nm,
           exp_input_space = input_space c,
           exp_child_dists = cd,
           data_path = dp,
           exp_base_file = main_path @ ''/experiment_data/'' @ base_file c,
           param_path = dp @ ''/parameters/'' @ nm @ ''_params.txt'',
           json_path = dp @ ''/json_data/'' @ nm,
           sh_path = dp @ ''/sh_scripts'',
           output_path = dp @ ''/peranto_output'',
           mse_path = dp @ ''/mse_results'',
           plot_path = dp @ ''/plots'' \<rparr>)"

definition Experiment_init ::
  "string \<Rightarrow> 'a config \<Rightarrow> filesystem \<Rightarrow> (py_error + 'a Experiment) \<times> filesystem" where
  "Experiment_init main_path c fs =
     (case child_dists c of
        None \<Rightarrow> (Inl AttributeError, fs)
      | Some cd \<Rightarrow>
          (let e = Experiment_fields main_path c cd
           in (case initialize e fs of
                 (Inl err, fs') \<Rightarrow> (Inl err, fs')
               | (Inr _, fs') \<Rightarrow> (Inr e, fs'))))"

subsection \<open>The parameter grid: \<open>Experiment.create_param_space\<close> and its readers\<close>

text \<open>
  \<^verbatim>\<open>[(strength, discount) for strength in inputs["Strength"] for discount in inputs["Discount"]]\<close>:
  the outer iterable is looked up once, the inner one once per strength. A missing key is a
  KeyError; iterating a value that is not a list is modelled as TypeError (a session that
  passed \<open>initialize\<close> has lists under both keys).
\<close>

definition param_pairs :: "'a input_space \<Rightarrow> py_error + ('a \<times> 'a) list" where
  "param_pairs inputs =
     (case map_of inputs ''Strength'' of
        None \<Rightarrow> Inl (KeyError ''Strength'')
      | Some NotAList \<Rightarrow> Inl TypeError
      | Some (PyList strengths) \<Rightarrow>
          (if strengths = [] then Inr []
           else (case map_of inputs ''Discount'' of
                   None \<Rightarrow> Inl (KeyError ''Discount'')
                 | Some NotAList \<Rightarrow> Inl TypeError
                 | Some (PyList discounts) \<Rightarrow>
                     Inr (concat (map (\<lambda>strength. map (\<lambda>discount. (strength, discount)) discounts)
                            strengths)))))"

text \<open>
  One line per pair, \<^verbatim>\<open>f"{pair[0]}, {pair[1]}\n"\<close>; \<open>str_of\<close> is Python's formatting
  of a number in an f-string.
\<close>

definition param_line :: "('a \<Rightarrow> string) \<Rightarrow> 'a \<times> 'a \<Rightarrow> string" where
  "param_line str_of pair = str_of (fst pair) @ '', '' @ str_of (snd pair) @ [CHR 0x0A]"

definition write_params :: "('a \<Rightarrow> string) \<Rightarrow> ('a \<times> 'a) list \<Rightarrow> string" where
  "write_params str_of pairs = concat (map (param_line str_of) pairs)"

definition create_param_space ::
  "('a \<Rightarrow> string) \<Rightarrow> 'a Experiment \<Rightarrow> filesystem \<Rightarrow> (py_error + unit) \<times> filesystem" where
  "create_param_space str_of e fs =
     (case param_pairs (exp_input_space e) of
        Inl err \<Rightarrow> (Inl err, fs)
      | Inr pairs \<Rightarrow>
          (Inr (), fs\<lparr>files := (files fs)(param_path e \<mapsto> write_params str_of pairs)\<rparr>))"

text \<open>
  Reading the list back (\<open>create_json_configs\<close>, \<open>get_peranto_data\<close>): a text file is read
  with universal newlines, \<^verbatim>\<open>readlines\<close> keeps the line ends,
  \<^verbatim>\<open>line.split(",")\<close> cuts at every comma, \<^verbatim>\<open>strip()\<close> removes white space at
  both ends (the ASCII white space of Python), and \<open>pyfloat\<close> is Python's \<^verbatim>\<open>float\<close>.
\<close>

fun univ_newlines :: "string \<Rightarrow> string" where
  "univ_newlines [] = []"
| "univ_newlines [c] = [if c = CHR 0x0D then CHR 0x0A else c]"
| "univ_newlines (c # d # cs) =
     (if c = CHR 0x0D \<and> d = CHR 0x0A then CHR 0x0A # univ_newlines cs
      else if c = CHR 0x0D then CHR 0x0A # univ_newlines (d # cs)
      else c # univ_newlines (d # cs))"

fun lines_from :: "string \<Rightarrow> string \<Rightarrow> string list" where
  "lines_from cur [] = (if cur = [] then [] else [cur])"
| "lines_from cur (c # cs) =
     (if c = CHR 0x0A then (cur @ [c]) # lines_from [] cs else lines_from (cur @ [c]) cs)"

definition readlines :: "string \<Rightarrow> string list" where
  "readlines content = lines_from [] (univ_newlines content)"

fun split_from :: "char \<Rightarrow> string \<Rightarrow> string \<Rightarrow> string list" where
  "split_from sep cur [] = [cur]"
| "split_from sep cur (c # cs) =
     (if c = sep then cur # split_from sep [] cs else split_from sep (cur @ [c]) cs)"

definition py_split :: "char \<Rightarrow> string \<Rightarrow> string list" where
  "py_split sep s = split_from sep [] s"

definition is_space :: "char \<Rightarrow> bool" where
  "is_space c = (c \<in> set [CHR 0x20, CHR 0x09, CHR 0x0A, CHR 0x0B, CHR 0x0C, CHR 0x0D,
                           CHR 0x1C, CHR 0x1D, CHR 0x1E, CHR 0x1F])"

definition strip :: "string \<Rightarrow> string" where
  "strip s = dropWhile is_space (rev (dropWhile is_space (rev s)))"

definition py_index :: "'a list \<Rightarrow> nat \<Rightarrow> py_error + 'a" where
  "py_index xs i = (if i < length xs then Inr (xs ! i) else Inl IndexError)"

definition parse_line :: "(string \<Rightarrow> py_error + 'a) \<Rightarrow> string \<Rightarrow> py_error + ('a \<times> 'a)" where
  "parse_line pyfloat line =
     (case py_index (py_split CHR '','' line) 0 of
        Inl err \<Rightarrow> Inl err
      | Inr f0 \<Rightarrow>
          (case pyfloat (strip f0) of
             Inl err \<Rightarrow> Inl err
           | Inr strength \<Rightarrow>
               (case py_index (py_split CHR '','' line) 1 of
                  Inl err \<Rightarrow> Inl err
                | Inr f1 \<Rightarrow>
                    (case pyfloat (strip f1) of
                       Inl err \<Rightarrow> Inl err
                     | Inr discount \<Rightarrow> Inr (strength, discount)))))"

fun parse_lines :: "(string \<Rightarrow> py_error + 'a) \<Rightarrow> string list \<Rightarrow> py_error + ('a \<times> 'a) list" where
  "parse_lines pyfloat [] = Inr []"
| "parse_lines pyfloat (line # rest) =
     (case parse_line pyfloat line of
        Inl err \<Rightarrow> Inl err
      | Inr p \<Rightarrow>
          (case parse_lines pyfloat rest of
             Inl err \<Rightarrow> Inl err
           | Inr ps \<Rightarrow> Inr (p # ps)))"

definition read_params :: "(string \<Rightarrow> py_error + 'a) \<Rightarrow> string \<Rightarrow> py_error + ('a \<times> 'a) list" where
  "read_params pyfloat content = parse_lines pyfloat (readlines content)"

definition read_parameters ::
  "(string \<Rightarrow> py_error + 'a) \<Rightarrow> 'b Experiment \<Rightarrow> filesystem \<Rightarrow> py_error + ('a \<times> 'a) list" where
  "read_parameters pyfloat e fs =
     (case files fs (param_path e) of
        None \<Rightarrow> Inl FileNotFoundError
      | Some content \<Rightarrow> read_params pyfloat content)"

text \<open>
  The texts that Python prints for numbers contain no comma and no white space; this is the
  condition under which the round trip is stated.
\<close>

definition plain_token :: "string \<Rightarrow> bool" where
  "plain_token w = (\<forall>c\<in>set w. c \<noteq> CHR '','' \<and> \<not> is_space c)"

subsection \<open>Ranking: \<open>Experiment.get_top_k\<close>\<close>

text \<open>
  \<^verbatim>\<open>x - y\<close> on one-dimensional arrays broadcasts an array of length one and raises
  ValueError on any other pair of different lengths. The arithmetic is float64: a
  difference and a square are the exact results rounded by \<open>fl\<close>, and \<open>fmean\<close> is
  \<^verbatim>\<open>np.mean\<close> on a non-empty array (numpy adds the elements in an order of its own and
  divides by their number). Both are parameters of the model, and the results are finite
  numbers: the curves ranked are proportions, far from overflow.
\<close>

definition np_subtract :: "(real \<Rightarrow> real) \<Rightarrow> real list \<Rightarrow> real list \<Rightarrow> py_error + real list" where
  "np_subtract fl x y =
     (if length x = length y then Inr (map (\<lambda>(a, b). fl (a - b)) (zip x y))
      else if length x = 1 then Inr (map (\<lambda>b. fl (hd x - b)) y)
      else if length y = 1 then Inr (map (\<lambda>a. fl (a - hd y)) x)
      else Inl ValueError)"

definition np_mean :: "(real list \<Rightarrow> real) \<Rightarrow> real list \<Rightarrow> py_error + real" where
  "np_mean fmean xs = (if xs = [] then Inl NanMean else Inr (fmean xs))"

definition mse ::
  "(real \<Rightarrow> real) \<Rightarrow> (real list \<Rightarrow> real) \<Rightarrow> real list \<Rightarrow> real list \<Rightarrow> py_error + real" where
  "mse fl fmean x y =
     (case np_subtract fl x y of
        Inl err \<Rightarrow> Inl err
      | Inr d \<Rightarrow> np_mean fmean (map (\<lambda>v. fl (v * v)) d))"

text \<open>
  A Python dictionary is an association list in insertion order with distinct keys:
  assigning to a key that is present replaces its value in place, a new key goes to the end.
  A dictionary comprehension assigns its items one after the other.
\<close>

fun dict_set :: "('k \<times> 'v) list \<Rightarrow> 'k \<Rightarrow> 'v \<Rightarrow> ('k \<times> 'v) list" where
  "dict_set [] k v = [(k, v)]"
| "dict_set ((k', v') # d) k v = (if k' = k then (k, v) # d else (k', v') # dict_set d k v)"

definition dict_of_items :: "('k \<times> 'v) list \<Rightarrow> ('k \<times> 'v) list" where
  "dict_of_items items = foldl (\<lambda>d (k, v). dict_set d k v) [] items"

fun mse_items ::
  "(real \<Rightarrow> real) \<Rightarrow> (real list \<Rightarrow> real) \<Rightarrow> real list \<Rightarrow> ('k \<times> real list) list \<Rightarrow>
     py_error + ('k \<times> real) list" where
  "mse_items fl fmean treebank_prop [] = Inr []"
| "mse_items fl fmean treebank_prop ((k, sing_prop) # rest) =
     (case mse fl fmean treebank_prop sing_prop of
        Inl err \<Rightarrow> Inl err
      | Inr m \<Rightarrow>
          (case mse_items fl fmean treebank_prop rest of
             Inl err \<Rightarrow> Inl err
           | Inr ms \<Rightarrow> Inr ((k, m) # ms)))"

text \<open>The slice \<^verbatim>\<open>xs[:k]\<close>: a negative \<open>k\<close> counts from the end.\<close>

definition py_slice_to :: "int \<Rightarrow> 'a list \<Rightarrow> 'a list" where
  "py_slice_to k xs =
     (if 0 \<le> k then take (nat k) xs else take (nat (int (length xs) + k)) xs)"

text \<open>
  \<^verbatim>\<open>sorted(..., key=...)\<close> is a stable sort, as \<open>sort_key\<close> is. The report file is
  written inside a \<^verbatim>\<open>try\<close> whose handler only prints; \<open>str_of\<close> is Python's
  formatting of a number.
\<close>

definition mse_report :: "(real \<Rightarrow> string) \<Rightarrow> ((real \<times> real) \<times> real) list \<Rightarrow> string" where
  "mse_report str_of mse_results =
     concat (map (\<lambda>((strength, discount), m).
        ''S ='' @ str_of strength @ '', D='' @ str_of discount @ '' MSE: '' @ str_of m @ [CHR 0x0A])
        mse_results)"

definition get_top_k ::
  "(real \<Rightarrow> string) \<Rightarrow> (real \<Rightarrow> real) \<Rightarrow> (real list \<Rightarrow> real) \<Rightarrow> 'a Experiment \<Rightarrow>
     ((real \<times> real) \<times> real list) list \<Rightarrow> real list \<Rightarrow> int \<Rightarrow>
     filesystem \<Rightarrow> (py_error + ((real \<times> real) \<times> real) list) \<times> filesystem" where
  "get_top_k str_of fl fmean e singleton_prop treebank_prop k fs =
     (case mse_items fl fmean treebank_prop singleton_prop of
        Inl err \<Rightarrow> (Inl err, fs)
      | Inr ms \<Rightarrow>
          (let mse_results = sort_key snd (dict_of_items ms);
               fs' = fs\<lparr>files := (files fs)(mse_path e @ ''/'' @ name e @ ''_mse_results.txt''
                                      \<mapsto> mse_report str_of mse_results)\<rparr>;
               res = py_slice_to k mse_results
           in (Inr (dict_of_items res), fs')))"

subsection \<open>Numbers in file names\<close>

text \<open>
  File names carry \<^verbatim>\<open>int(strength)\<close> and \<^verbatim>\<open>int(100 * discount)\<close>: truncation
  towards zero, printed in decimal. The product is taken over the reals.
\<close>

definition py_int :: "real \<Rightarrow> int" where
  "py_int x = (if 0 \<le> x then \<lfloor>x\<rfloor> else \<lceil>x\<rceil>)"

definition digit_char :: "nat \<Rightarrow> char" where
  "digit_char n = ''0123456789'' ! n"

fun str_nat :: "nat \<Rightarrow> string" where
  "str_nat n = (if n < 10 then [digit_char n] else str_nat (n div 10) @ [digit_char (n mod 10)])"

definition str_int :: "int \<Rightarrow> string" where
  "str_int i = (if i < 0 then CHR ''-'' # str_nat (nat (- i)) else str_nat (nat i))"

subsection \<open>Configuration documents: \<open>Experiment.create_json_configs\<close>\<close>

text \<open>
  What \<^verbatim>\<open>json.load\<close> returns: None, a bool, a number, a string, a list, or a dictionary
  in the order of the file. The document is a tree (no object occurs twice in it), so the
  in-place assignments of the source are updates of the tree.
\<close>

datatype json =
    JNull
  | JBool bool
  | JNum real
  | JStr string
  | JArr "json list"
  | JObj "(string \<times> json) list"

text \<open>
  \<^verbatim>\<open>v[key]\<close> with a string key: a dictionary looks the key up (KeyError when it is not
  there), every other value raises TypeError. \<^verbatim>\<open>v[key] = x\<close> likewise.
\<close>

definition json_getitem :: "json \<Rightarrow> string \<Rightarrow> py_error + json" where
  "json_getitem v key =
     (case v of
        JObj kvs \<Rightarrow> (case map_of kvs key of None \<Rightarrow> Inl (KeyError key) | Some x \<Rightarrow> Inr x)
      | _ \<Rightarrow> Inl TypeError)"

definition json_setitem :: "json \<Rightarrow> string \<Rightarrow> json \<Rightarrow> py_error + json" where
  "json_setitem v key x =
     (case v of
        JObj kvs \<Rightarrow> Inr (JObj (dict_set kvs key x))
      | _ \<Rightarrow> Inl TypeError)"

text \<open>
  \<^verbatim>\<open>for x in v\<close>: a list yields its elements, a dictionary its keys, a string its
  characters; nothing else is iterable.
\<close>

definition json_iter :: "json \<Rightarrow> py_error + json list" where
  "json_iter v =
     (case v of
        JArr xs \<Rightarrow> Inr xs
      | JObj kvs \<Rightarrow> Inr (map (\<lambda>kv. JStr (fst kv)) kvs)
      | JStr s \<Rightarrow> Inr (map (\<lambda>c. JStr [c]) s)
      | _ \<Rightarrow> Inl TypeError)"

definition bind_err :: "py_error + 'a \<Rightarrow> ('a \<Rightarrow> py_error + 'b) \<Rightarrow> py_error + 'b" where
  "bind_err r f = (case r of Inl err \<Rightarrow> Inl err | Inr x \<Rightarrow> f x)"

fun map_err :: "('a \<Rightarrow> py_error + 'b) \<Rightarrow> 'a list \<Rightarrow> py_error + 'b list" where
  "map_err f [] = Inr []"
| "map_err f (x # xs) =
     (case f x of
        Inl err \<Rightarrow> Inl err
      | Inr y \<Rightarrow> (case map_err f xs of Inl err \<Rightarrow> Inl err | Inr ys \<Rightarrow> Inr (y # ys)))"

text \<open>
  A loop \<^verbatim>\<open>for x in doc[key]: ...\<close> whose body assigns to items of \<open>x\<close>. The elements
  of a list are the objects in the document, so the document changes with them; the keys
  of a dictionary and the characters of a string are not part of it.
\<close>

definition update_each :: "string \<Rightarrow> (json \<Rightarrow> py_error + json) \<Rightarrow> json \<Rightarrow> py_error + json" where
  "update_each key body doc =
     bind_err (json_getitem doc key) (\<lambda>v.
     bind_err (json_iter v) (\<lambda>xs.
     bind_err (map_err body xs) (\<lambda>xs'.
       (case v of JArr _ \<Rightarrow> json_setitem doc key (JArr xs') | _ \<Rightarrow> Inr doc))))"

definition num_pron :: "real \<times> real" where
  "num_pron = (6981516025097507 / 10 ^ 16, 2518229608275394 / 10 ^ 16)"

definition zdists :: "(string \<times> string list) list" where
  "zdists =
     [(''nn'', [''nn'']),
      (''nn.arg0'', [''nn.$y1'']),
      (''nn.arg1'', [''nn.$y1'']),
      (''nn.arg0.$y0'', [''nn.$y1.$y2'']),
      (''nn.arg1.$y0'', [''nn.$y1.$y2''])]"

definition entity_rule :: string where
  "entity_rule = ''$qentity.$y1.$y2 -> (ENTITY $qnn.$y1.$z1 $qentitymods)''"

definition arg0_noun_rule :: string where
  "arg0_noun_rule = ''$qnn.arg0.$y1 -> (inst nn.$y1)''"

definition arg0_pron_rule :: string where
  "arg0_pron_rule = ''$qnn.arg0.$y1 -> (inst pron.$z1)''"

definition arg1_noun_rule :: string where
  "arg1_noun_rule = ''$qnn.arg1.$y1 -> (inst nn.$y1)''"

definition arg1_pron_rule :: string where
  "arg1_pron_rule = ''$qnn.arg1.$y1 -> (inst pron.$z1)''"

text \<open>The body of the loop over \<^verbatim>\<open>json_content["distributions"]\<close>.\<close>

definition update_dist :: "string list \<Rightarrow> real \<Rightarrow> real \<Rightarrow> json \<Rightarrow> py_error + json" where
  "update_dist cds strength discount d =
     bind_err (json_getitem d ''name'') (\<lambda>nm.
       if (\<exists>s\<in>set cds. nm = JStr s)
       then bind_err (json_setitem d ''strength'' (JNum strength)) (\<lambda>d'.
              json_setitem d' ''discount'' (JNum discount))
       else Inr d)"

text \<open>
  The body of the loop over \<^verbatim>\<open>json_content["rules"]\<close>: five tests on
  \<^verbatim>\<open>rule["rule"]\<close> one after the other; none of the assignments changes that item.
\<close>

definition set_if :: "bool \<Rightarrow> string \<Rightarrow> json \<Rightarrow> json \<Rightarrow> py_error + json" where
  "set_if c key x rule = (if c then json_setitem rule key x else Inr rule)"

definition update_rule :: "string \<Rightarrow> json \<Rightarrow> py_error + json" where
  "update_rule dn rule =
     bind_err (json_getitem rule ''rule'') (\<lambda>r.
     bind_err (if dn \<noteq> ''vb'' \<and> r = JStr entity_rule
               then (case map_of zdists dn of
                       None \<Rightarrow> Inl (KeyError dn)
                     | Some z \<Rightarrow> json_setitem rule ''zdists'' (JArr (map JStr z)))
               else Inr rule) (\<lambda>rule1.
     bind_err (set_if (r = JStr arg0_noun_rule) ''base_weight'' (JNum (1 - fst num_pron)) rule1) (\<lambda>rule2.
     bind_err (set_if (r = JStr arg0_pron_rule) ''base_weight'' (JNum (fst num_pron)) rule2) (\<lambda>rule3.
     bind_err (set_if (r = JStr arg1_noun_rule) ''base_weight'' (JNum (1 - snd num_pron)) rule3) (\<lambda>rule4.
       set_if (r = JStr arg1_pron_rule) ''base_weight'' (JNum (snd num_pron)) rule4)))))"

text \<open>
  One pass of the loop over the parameter pairs, up to the write: the document
  \<open>json_content\<close> before and after. There is no copy; the next pass starts from the result.
\<close>

definition derive_config :: "'a Experiment \<Rightarrow> json \<Rightarrow> real \<times> real \<Rightarrow> py_error + json" where
  "derive_config e json_content pair =
     bind_err (update_each ''distributions''
                 (update_dist (exp_child_dists e) (fst pair) (snd pair)) json_content)
       (update_each ''rules'' (update_rule (exp_dist e)))"

definition config_file :: "'a Experiment \<Rightarrow> real \<Rightarrow> real \<Rightarrow> string" where
  "config_file e strength discount =
     json_path e @ ''/'' @ name e @ ''_amr_s'' @ str_int (py_int strength) @ ''_d'' @
     str_int (py_int (discount * 100)) @ ''.json''"

fun configs_loop ::
  "(json \<Rightarrow> string) \<Rightarrow> 'a Experiment \<Rightarrow> (real \<times> real) list \<Rightarrow> json \<Rightarrow> filesystem \<Rightarrow>
     (py_error + json) \<times> filesystem" where
  "configs_loop json_dump e [] json_content fs = (Inr json_content, fs)"
| "configs_loop json_dump e (pair # rest) json_content fs =
     (case derive_config e json_content pair of
        Inl err \<Rightarrow> (Inl err, fs)
      | Inr doc \<Rightarrow>
          configs_loop json_dump e rest doc
            (fs\<lparr>files := (files fs)(config_file e (fst pair) (snd pair) \<mapsto> json_dump doc)\<rparr>))"

text \<open>
  \<open>create_json_configs\<close>; \<open>json_load\<close> and \<open>json_dump\<close> are the parser and printer of
  Python's \<^verbatim>\<open>json\<close> module. The result carries the document as the loop leaves it.
\<close>

definition create_json_configs ::
  "(string \<Rightarrow> py_error + real) \<Rightarrow> (string \<Rightarrow> py_error + json) \<Rightarrow> (json \<Rightarrow> string) \<Rightarrow> 'a Experiment \<Rightarrow>
     filesystem \<Rightarrow> (py_error + json) \<times> filesystem" where
  "create_json_configs pyfloat json_load json_dump e fs =
     (case read_parameters pyfloat e fs of
        Inl err \<Rightarrow> (Inl err, fs)
      | Inr parameters \<Rightarrow>
          (case files fs (exp_base_file e) of
             None \<Rightarrow> (Inl FileNotFoundError, fs)
           | Some text \<Rightarrow>
               (case json_load text of
                  Inl err \<Rightarrow> (Inl err, fs)
                | Inr json_content \<Rightarrow> configs_loop json_dump e parameters json_content fs)))"

subsection \<open>Evaluation: \<open>get_peranto_data\<close>, \<open>get_singleton_prop\<close>, \<open>run\<close>\<close>

definition out_file :: "'a Experiment \<Rightarrow> real \<Rightarrow> real \<Rightarrow> string" where
  "out_file e strength discount =
     output_path e @ ''/'' @ name e @ ''/peranto_'' @ name e @ ''_s'' @ str_int (py_int strength) @
     ''_d'' @ str_int (py_int (100 * discount)) @ ''.txt''"

definition modified_file :: "'a Experiment \<Rightarrow> real \<Rightarrow> real \<Rightarrow> string" where
  "modified_file e strength discount =
     output_path e @ ''/'' @ name e @ '' modified/peranto_'' @ name e @ ''_s'' @
     str_int (py_int strength) @ ''_d'' @ str_int (py_int (100 * discount)) @ ''_modified.txt''"

text \<open>\<^verbatim>\<open>line.split()\<close>: the maximal runs of characters that are not white space.\<close>

fun words_from :: "string \<Rightarrow> string \<Rightarrow> string list" where
  "words_from cur [] = (if cur = [] then [] else [cur])"
| "words_from cur (c # cs) =
     (if is_space c then (if cur = [] then words_from [] cs else cur # words_from [] cs)
      else words_from (cur @ [c]) cs)"

definition py_split_ws :: "string \<Rightarrow> string list" where
  "py_split_ws s = words_from [] s"

type_synonym triple = "string \<times> string \<times> string"

definition read_triple :: "string \<Rightarrow> py_error + triple" where
  "read_triple line =
     (let ws = py_split_ws line
      in (case py_index ws 0 of
            Inl err \<Rightarrow> Inl err
          | Inr subject \<Rightarrow>
              (case py_index ws 1 of
                 Inl err \<Rightarrow> Inl err
               | Inr verb \<Rightarrow>
                   (case py_index ws 2 of
                      Inl err \<Rightarrow> Inl err
                    | Inr obj \<Rightarrow> Inr (subject, verb, obj)))))"

fun read_triples :: "string list \<Rightarrow> py_error + triple list" where
  "read_triples [] = Inr []"
| "read_triples (line # rest) =
     (case read_triple line of
        Inl err \<Rightarrow> Inl err
      | Inr t \<Rightarrow>
          (case read_triples rest of
             Inl err \<Rightarrow> Inl err
           | Inr ts \<Rightarrow> Inr (t # ts)))"

definition error_text :: "py_error \<Rightarrow> string" where
  "error_text err =
     (case err of
        IndexError \<Rightarrow> ''list index out of range''
      | Exception msg \<Rightarrow> msg
      | KeyError k \<Rightarrow> k
      | _ \<Rightarrow> [])"

definition modified_text :: "observation list \<Rightarrow> string" where
  "modified_text stuff_to_write =
     concat (map (\<lambda>tup. concat (map (\<lambda>item. item @ '' '') tup) @ [CHR 0x0A]) stuff_to_write)"

text \<open>
  The loop of \<open>get_peranto_data\<close> over the parameter pairs. Its state is the dictionary
  built so far, the file system and the lines printed. Both handlers of the first
  \<^verbatim>\<open>try\<close> print a message and \<^verbatim>\<open>return None\<close> from the whole function.
  \<open>store_get\<close> stands for \<^verbatim>\<open>PerantoTripleStore\<close> (\<^verbatim>\<open>add_triple\<close> for every line,
  then \<^verbatim>\<open>get(self.dist)\<close>), a class outside this file.
\<close>

type_synonym peranto_data = "((real \<times> real) \<times> observation list) list"

fun peranto_loop ::
  "(string \<Rightarrow> triple list \<Rightarrow> observation list) \<Rightarrow> 'a Experiment \<Rightarrow> (real \<times> real) list \<Rightarrow>
     peranto_data \<Rightarrow> filesystem \<Rightarrow> string list \<Rightarrow> peranto_data option \<times> filesystem \<times> string list" where
  "peranto_loop store_get e [] data fs out = (Some data, fs, out)"
| "peranto_loop store_get e ((strength, discount) # rest) data fs out =
     (case files fs (out_file e strength discount) of
        None \<Rightarrow>
          (None, fs, out @ [''The file at path '' @ out_file e strength discount @ '' was not found.''])
      | Some content \<Rightarrow>
          (case read_triples (readlines content) of
             Inl err \<Rightarrow> (None, fs, out @ [''An error occurred: '' @ error_text err])
           | Inr triples \<Rightarrow>
               (let stuff_to_write = store_get (exp_dist e) triples;
                    data' = dict_set data (strength, discount) stuff_to_write;
                    fs' = fs\<lparr>files := (files fs)(modified_file e strength discount
                                           \<mapsto> modified_text stuff_to_write)\<rparr>
                in peranto_loop store_get e rest data' fs' out)))"

definition get_peranto_data ::
  "(string \<Rightarrow> triple list \<Rightarrow> observation list) \<Rightarrow> (string \<Rightarrow> py_error + real) \<Rightarrow> 'a Experiment \<Rightarrow>
     filesystem \<Rightarrow> (py_error + peranto_data option) \<times> filesystem \<times> string list" where
  "get_peranto_data store_get pyfloat e fs =
     (case read_parameters pyfloat e fs of
        Inl err \<Rightarrow> (Inl err, fs, [])
      | Inr parameters \<Rightarrow>
          (case peranto_loop store_get e parameters [] fs [] of
             (data, fs', out) \<Rightarrow> (Inr data, fs', out)))"

fun prop_items ::
  "(real \<Rightarrow> real) \<Rightarrow> peranto_data \<Rightarrow> py_error + ((real \<times> real) \<times> real list) list" where
  "prop_items fl [] = Inr []"
| "prop_items fl ((k, lst) # rest) =
     (case get_prop fl lst of
        Inl err \<Rightarrow> Inl err
      | Inr c \<Rightarrow>
          (case prop_items fl rest of
             Inl err \<Rightarrow> Inl err
           | Inr cs \<Rightarrow> Inr ((k, c) # cs)))"

text \<open>
  \<open>get_singleton_prop\<close> calls \<^verbatim>\<open>data.items()\<close> on what \<open>get_peranto_data\<close> returned;
  on None that is an AttributeError. \<open>treebank\<close> is \<^verbatim>\<open>self.store.get(self.dist)\<close>, the
  observations of the reference corpus.
\<close>

definition get_singleton_prop ::
  "(real \<Rightarrow> real) \<Rightarrow> (string \<Rightarrow> triple list \<Rightarrow> observation list) \<Rightarrow> (string \<Rightarrow> py_error + real) \<Rightarrow>
     observation list \<Rightarrow> 'a Experiment \<Rightarrow> filesystem \<Rightarrow>
     (py_error + ((real \<times> real) \<times> real list) list \<times> real list) \<times> filesystem \<times> string list" where
  "get_singleton_prop fl store_get pyfloat treebank e fs =
     (case get_peranto_data store_get pyfloat e fs of
        (Inl err, fs', out) \<Rightarrow> (Inl err, fs', out)
      | (Inr None, fs', out) \<Rightarrow> (Inl AttributeError, fs', out)
      | (Inr (Some data), fs', out) \<Rightarrow>
          (case prop_items fl data of
             Inl err \<Rightarrow> (Inl err, fs', out)
           | Inr peranto_prop \<Rightarrow>
               (case get_prop fl treebank of
                  Inl err \<Rightarrow> (Inl err, fs', out)
                | Inr treebank_prop \<Rightarrow> (Inr (dict_of_items peranto_prop, treebank_prop), fs', out))))"

text \<open>
  \<open>run\<close>, up to the plot: the result is the dictionary \<open>best_params\<close> that the source hands
  to \<open>create_plot\<close>.
\<close>

definition run ::
  "(real \<Rightarrow> string) \<Rightarrow> (real \<Rightarrow> real) \<Rightarrow> (real list \<Rightarrow> real) \<Rightarrow>
     (string \<Rightarrow> triple list \<Rightarrow> observation list) \<Rightarrow> (string \<Rightarrow> py_error + real) \<Rightarrow>
     observation list \<Rightarrow> 'a Experiment \<Rightarrow> int \<Rightarrow> filesystem \<Rightarrow>
     (py_error + ((real \<times> real) \<times> real) list) \<times> filesystem \<times> string list" where
  "run str_of fl fmean store_get pyfloat treebank e k fs =
     (case get_singleton_prop fl store_get pyfloat treebank e fs of
        (Inl err, fs', out) \<Rightarrow> (Inl err, fs', out)
      | (Inr (singleton_prop, treebank_prop), fs', out) \<Rightarrow>
          (case get_top_k str_of fl fmean e singleton_prop treebank_prop k fs' of
             (Inl err, fs'') \<Rightarrow> (Inl err, fs'', out)
           | (Inr best_params, fs'') \<Rightarrow> (Inr best_params, fs'', out)))"

section \<open>Properties\<close>

subsection \<open>The singleton-proportion curve\<close>

lemma prop_loop_inv:
  assumes "prop_loop u idx xs (cnt, seen, sing, tot) = Inr (cnt', seen', sing', tot')"
    and "cnt \<le> idx" and "seen \<noteq> {} \<longrightarrow> 1 \<le> cnt"
  shows "tot' = tot @ [idx + 1 ..< idx + 1 + length xs] \<and>
         (\<exists>S. sing' = sing @ S \<and> length S = length xs \<and> sorted S \<and>
              (\<forall>s\<in>set S. cnt \<le> s \<and> 1 \<le> s) \<and> (\<forall>i<length S. S ! i \<le> idx + i + 1))"
  using assms
proof (induction xs arbitrary: idx cnt seen sing tot)
  case Nil
  then show ?case by simp
next
  case (Cons x xs)
  from Cons.prems(1) obtain ab where ab: "u x = Inr ab"
    by (cases "u x") auto
  obtain c1 seen1 where st: "prop_step idx ab (cnt, seen, sing, tot) = (c1, seen1, sing @ [c1], tot @ [idx + 1])"
    and c1: "c1 = (if ab \<notin> seen then cnt + 1 else cnt)"
    and s1: "seen1 = (if ab \<notin> seen then insert ab seen else seen)"
    by (simp add: prop_step_def)
  have rec: "prop_loop u (idx + 1) xs (c1, seen1, sing @ [c1], tot @ [idx + 1]) = Inr (cnt', seen', sing', tot')"
    using Cons.prems(1) ab st by simp
  have b1: "c1 \<le> idx + 1" using c1 Cons.prems(2) by simp
  have b2: "seen1 \<noteq> {} \<longrightarrow> 1 \<le> c1" using c1 s1 Cons.prems(3) by auto
  have b3: "cnt \<le> c1" "1 \<le> c1" using c1 Cons.prems(3) by auto
  from Cons.IH[OF rec b1 b2] obtain S where
    t: "tot' = (tot @ [idx + 1]) @ [idx + 1 + 1 ..< idx + 1 + 1 + length xs]"
    and S: "sing' = (sing @ [c1]) @ S" "length S = length xs" "sorted S"
      "\<forall>s\<in>set S. c1 \<le> s \<and> 1 \<le> s" "\<forall>i<length S. S ! i \<le> idx + 1 + i + 1"
    by blast
  have t': "tot' = tot @ [idx + 1 ..< idx + 1 + length (x # xs)]"
  proof -
    have "[idx + 1 ..< idx + 1 + length (x # xs)] = (idx + 1) # [idx + 1 + 1 ..< idx + 1 + 1 + length xs]"
      using upt_conv_Cons[of "idx + 1" "idx + 1 + length (x # xs)"] by simp
    then show ?thesis using t by simp
  qed
  have "sing' = sing @ (c1 # S)" using S(1) by simp
  moreover have "length (c1 # S) = length (x # xs)" using S(2) by simp
  moreover have "sorted (c1 # S)" using S(3,4) by simp
  moreover have "\<forall>s\<in>set (c1 # S). cnt \<le> s \<and> 1 \<le> s" using S(4) b3 by auto
  moreover have "\<forall>i<length (c1 # S). (c1 # S) ! i \<le> idx + i + 1"
  proof (intro allI impI)
    fix i assume "i < length (c1 # S)"
    then show "(c1 # S) ! i \<le> idx + i + 1"
      using b1 S(5) by (cases i) auto
  qed
  ultimately show ?case using t' by blast
qed

lemma prop_loop_total:
  "\<forall>x\<in>set xs. \<exists>ab. u x = Inr ab \<Longrightarrow> \<exists>st'. prop_loop u idx xs st = Inr st'"
proof (induction xs arbitrary: idx st)
  case Nil
  show ?case by (rule exI[of _ st]) simp
next
  case (Cons x xs)
  then obtain ab where "u x = Inr ab" by auto
  then show ?case using Cons by simp
qed

lemma unpack_pair_total: "length x = 2 \<Longrightarrow> \<exists>ab. unpack_pair x = Inr ab"
  by (cases x rule: unpack_pair.cases) auto

lemma prop_result_curve:
  assumes "prop_loop u 0 lst prop_init = Inr st"
    and mono: "\<forall>x y. x \<le> y \<longrightarrow> fl x \<le> fl y" and one: "fl 1 = 1"
    and pos: "\<forall>n. 0 < n \<and> n \<le> length lst \<longrightarrow> 0 < fl (1 / real n)"
  shows "\<exists>curve. prop_result fl (Inr st) = Inr curve \<and> length curve = length lst \<and>
           (\<forall>i<length curve. 0 < curve ! i \<and> curve ! i \<le> 1)"
proof -
  obtain cnt' seen' sing' tot' where st: "st = (cnt', seen', sing', tot')"
    by (metis prod_cases4)
  have "prop_loop u 0 lst (0, {}, [], []) = Inr (cnt', seen', sing', tot')"
    using assms(1) st by (simp add: prop_init_def)
  from prop_loop_inv[OF this] obtain S where
    tot: "tot' = [1 ..< 1 + length lst]" and S: "sing' = S" "length S = length lst" "sorted S"
      "\<forall>s\<in>set S. 1 \<le> s" "\<forall>i<length S. S ! i \<le> i + 1"
    by auto
  let ?c = "np_divide fl sing' tot'"
  have lt: "length tot' = length lst"
    unfolding tot length_upt by simp
  have nt: "tot' ! i = i + 1" if "i < length lst" for i
    unfolding tot using nth_upt[of 1 i "1 + length lst"] that by simp
  have len: "length ?c = length lst" using lt S by (simp add: np_divide_def)
  have nth: "?c ! i = fl (real (S ! i) / real (i + 1))" if "i < length lst" for i
    using that lt nt[OF that] S by (simp add: np_divide_def)
  have rng: "0 < ?c ! i \<and> ?c ! i \<le> 1" if "i < length lst" for i
  proof -
    have s: "1 \<le> S ! i" "S ! i \<le> i + 1" using that S by auto
    have "real (S ! i) / real (i + 1) \<le> 1" using s(2) by simp
    then have up: "fl (real (S ! i) / real (i + 1)) \<le> 1" using mono one by metis
    have "1 / real (i + 1) \<le> real (S ! i) / real (i + 1)"
      using s(1) by (simp add: divide_right_mono)
    then have "fl (1 / real (i + 1)) \<le> fl (real (S ! i) / real (i + 1))" using mono by blast
    moreover have "0 < fl (1 / real (i + 1))" using pos[rule_format, of "i + 1"] that by simp
    ultimately show ?thesis using up nth[OF that] by simp
  qed
  show ?thesis using st len rng by (simp add: prop_result_def)
qed

text \<open>
  C5: the claim says that the curve of the empty observation sequence is the empty curve.
  The source reads \<^verbatim>\<open>lst[0]\<close> first, so on the empty sequence it raises IndexError and
  returns no curve.
\<close>

theorem get_prop_empty_raises: "get_prop fl [] = Inl IndexError"
  by (simp add: get_prop_def)

text \<open>
  C2 (amended): for every non-empty observation sequence whose elements the loop can unpack
  (the first observation has length one, or every observation is a pair), \<open>get_prop\<close>
  returns a curve with one value per observation, and every value lies in the half-open
  interval (0,1]. Nothing is said of monotonicity. The rounding of the division is assumed
  monotone, exact on 1, and not to round a quotient 1/n down to zero for n up to the number
  of observations, as rounding to the nearest float64 is.
\<close>

theorem get_prop_curve_bounds:
  assumes "lst \<noteq> []" and "length (hd lst) = 1 \<or> (\<forall>x\<in>set lst. length x = 2)"
    and "\<forall>x y. x \<le> y \<longrightarrow> fl x \<le> fl y" and "fl 1 = 1"
    and "\<forall>n. 0 < n \<and> n \<le> length lst \<longrightarrow> 0 < fl (1 / real n)"
  shows "\<exists>curve. get_prop fl lst = Inr curve \<and> length curve = length lst \<and>
           (\<forall>i<length curve. 0 < curve ! i \<and> curve ! i \<le> 1)"
proof (cases "length (hd lst) = 1")
  case True
  obtain st where "prop_loop wrap_pair 0 lst prop_init = Inr st"
    using prop_loop_total[of lst wrap_pair 0 prop_init] by (auto simp: wrap_pair_def)
  then show ?thesis using prop_result_curve[of wrap_pair lst st fl] True assms
    by (cases lst) (simp_all add: get_prop_def)
next
  case False
  then have "\<forall>x\<in>set lst. \<exists>ab. unpack_pair x = Inr ab"
    using assms(2) unpack_pair_total by blast
  then obtain st where "prop_loop unpack_pair 0 lst prop_init = Inr st"
    using prop_loop_total[of lst unpack_pair 0 prop_init] by auto
  then show ?thesis using prop_result_curve[of unpack_pair lst st fl] False assms
    by (cases lst) (simp_all add: get_prop_def)
qed

theorem get_prop_curve_bounds_witness:
  "\<exists>curve. get_prop (\<lambda>x. x) [[''he'', ''eat''], [''we'', ''run''], [''it'', ''is''], [''it'', ''is'']] =
       Inr curve \<and>
     length curve = 4 \<and> 0 < curve ! 3 \<and> curve ! 3 \<le> 1"
proof -
  let ?lst = "[[''he'', ''eat''], [''we'', ''run''], [''it'', ''is''], [''it'', ''is'']]"
  have h1: "?lst \<noteq> []" by simp
  have h2: "length (hd ?lst) = 1 \<or> (\<forall>x\<in>set ?lst. length x = 2)" by simp
  have h3: "\<forall>x y :: real. x \<le> y \<longrightarrow> (\<lambda>x. x) x \<le> (\<lambda>x. x) y" by simp
  have h4: "(\<lambda>x :: real. x) 1 = 1" by simp
  have h5: "\<forall>n. 0 < n \<and> n \<le> length ?lst \<longrightarrow> 0 < (\<lambda>x :: real. x) (1 / real n)" by simp
  from get_prop_curve_bounds[OF h1 h2 h3 h4 h5] obtain curve where
    c: "get_prop (\<lambda>x. x) ?lst = Inr curve" "length curve = length ?lst"
      "\<forall>i<length curve. 0 < curve ! i \<and> curve ! i \<le> 1"
    by blast
  have "0 < curve ! 3 \<and> curve ! 3 \<le> 1" using c(2,3) by simp
  then show ?thesis using c(1,2) by auto
qed

text \<open>
  C2, as stated, fails: an observation seen twice in a row gives the curve [1, 1/2], which
  decreases. Both quotients, 1/1 and 1/2, are float64 numbers, so the division returns them
  as they are.
\<close>

theorem get_prop_not_monotone:
  "get_prop (\<lambda>x. x) [[''a''], [''a'']] = Inr [1, 1 / 2] \<and> \<not> ((1::real) \<le> 1 / 2)"
  by (simp add: get_prop_def prop_result_def prop_init_def prop_step_def wrap_pair_def np_divide_def)

subsection \<open>Session construction and the stage gate\<close>

lemma ancestors_prefix: "q \<in> set (ancestors p) \<Longrightarrow> prefix q p"
  by (auto simp: ancestors_def)

lemma ancestors_self: "p \<noteq> [] \<Longrightarrow> p \<in> set (ancestors p)"
  by (auto simp: ancestors_def)

lemma files_create_paths: "files (create_paths ps fs) = files fs"
  by (induction ps arbitrary: fs) (auto simp: makedirs_def)

lemma dirs_create_paths:
  "q \<in> dirs (create_paths ps fs) \<Longrightarrow> q \<in> dirs fs \<or> (\<exists>p\<in>set ps. prefix q p)"
proof (induction ps arbitrary: fs)
  case Nil
  then show ?case by simp
next
  case (Cons p ps)
  let ?fs = "if \<not> path_exists fs p then makedirs p fs else fs"
  from Cons.prems have "q \<in> dirs (create_paths ps ?fs)" by simp
  from Cons.IH[OF this] show ?case
    by (auto simp: makedirs_def dest: ancestors_prefix split: if_splits)
qed

lemma path_exists_makedirs: "path_exists fs q \<Longrightarrow> path_exists (makedirs p fs) q"
  by (auto simp: makedirs_def path_exists_def)

lemma path_exists_mono: "path_exists fs q \<Longrightarrow> path_exists (create_paths ps fs) q"
proof (induction ps arbitrary: fs)
  case Nil
  then show ?case by simp
next
  case (Cons p ps)
  then have "path_exists (if \<not> path_exists fs p then makedirs p fs else fs) q"
    by (simp add: path_exists_makedirs)
  then show ?case using Cons.IH by simp
qed

lemma path_exists_created:
  "p \<in> set ps \<Longrightarrow> p \<noteq> [] \<Longrightarrow> path_exists (create_paths ps fs) p"
proof (induction ps arbitrary: fs)
  case Nil
  then show ?case by simp
next
  case (Cons a ps)
  show ?case
  proof (cases "p = a")
    case True
    have "path_exists (if \<not> path_exists fs a then makedirs a fs else fs) a"
      using Cons.prems(2) True ancestors_self[of a] by (auto simp: makedirs_def path_exists_def)
    then show ?thesis using True path_exists_mono by simp
  next
    case False
    then show ?thesis using Cons by simp
  qed
qed

lemma not_exists_create_paths:
  assumes "\<not> path_exists fs q" and "\<forall>p\<in>set ps. \<not> prefix q p"
  shows "\<not> path_exists (create_paths ps fs) q"
  using assms dirs_create_paths[of q ps fs]
  by (auto simp: path_exists_def files_create_paths)

lemma param_path_not_created:
  assumes "\<not> path_exists fs (get_param_path (Experiment_fields main_path c cd) d)"
  shows "\<not> path_exists (create_paths (paths (Experiment_fields main_path c cd)) fs)
            (get_param_path (Experiment_fields main_path c cd) d)"
proof (rule not_exists_create_paths[OF assms])
  let ?dp = "main_path @ ''/experiment_data/'' @ data_folder c"
  have a: "\<not> prefix (?dp @ ''/parameters/'' @ d @ ''_params.txt'') (?dp @ [])"
    unfolding same_prefix_prefix by simp
  show "\<forall>p\<in>set (paths (Experiment_fields main_path c cd)).
          \<not> prefix (get_param_path (Experiment_fields main_path c cd) d) p"
    using a by (simp add: paths_def get_param_path_def Experiment_fields_def Let_def)
qed

lemma initialize_reaches_gate:
  assumes "exp_dist e \<in> set distributions"
    and "map fst (exp_input_space e) = [''Strength'', ''Discount'']"
    and "\<forall>v\<in>set (map snd (exp_input_space e)). is_list v"
    and "path_exists fs (exp_base_file e)"
  shows "initialize e fs =
           (stage_gate e (create_paths (paths e) fs), create_paths (paths e) fs)"
  using assms by (simp add: initialize_def Let_def)

lemma lvl3_blocked_on_vb:
  assumes "distribution c = ''nn.arg0.$y0'' \<or> distribution c = ''nn.arg1.$y0''"
    and "child_dists c = Some cd"
    and "map fst (input_space c) = [''Strength'', ''Discount'']"
    and "\<forall>v\<in>set (map snd (input_space c)). is_list v"
    and "path_exists fs (main_path @ ''/experiment_data/'' @ base_file c)"
    and "\<not> path_exists fs (main_path @ ''/experiment_data/'' @ data_folder c @ ''/parameters/vb_params.txt'')"
  shows "Experiment_init main_path c fs =
           (Inl (Exception (''Please tune vb before '' @ filter (\<lambda>ch. ch \<noteq> CHR ''$'') (distribution c))),
            create_paths (paths (Experiment_fields main_path c cd)) fs)"
proof -
  let ?e = "Experiment_fields main_path c cd"
  let ?fs' = "create_paths (paths ?e) fs"
  have nm: "name ?e = filter (\<lambda>ch. ch \<noteq> CHR ''$'') (distribution c)"
    by (simp add: Experiment_fields_def Let_def)
  have lvl3: "name ?e \<in> set lvl3_dist"
    using assms(1) by (auto simp: nm lvl3_dist_def)
  have gp: "get_param_path ?e ''vb'' =
      main_path @ ''/experiment_data/'' @ data_folder c @ ''/parameters/vb_params.txt''"
    by (simp add: get_param_path_def Experiment_fields_def Let_def)
  have "\<not> path_exists ?fs' (get_param_path ?e ''vb'')"
    using param_path_not_created[of fs main_path c cd "''vb''"] assms(6) gp by simp
  then have gate: "stage_gate ?e ?fs' = Inl (Exception (''Please tune vb before '' @ name ?e))"
    using lvl3 by (simp add: stage_gate_def lvl1_dist_def)
  have "initialize ?e fs = (stage_gate ?e ?fs', ?fs')"
  proof (rule initialize_reaches_gate)
    show "exp_dist ?e \<in> set distributions"
      using assms(1) by (auto simp: Experiment_fields_def Let_def distributions_def)
    show "map fst (exp_input_space ?e) = [''Strength'', ''Discount'']"
      using assms(3) by (simp add: Experiment_fields_def Let_def)
    show "\<forall>v\<in>set (map snd (exp_input_space ?e)). is_list v"
      using assms(4) by (simp add: Experiment_fields_def Let_def)
    show "path_exists fs (exp_base_file ?e)"
      using assms(5) by (simp add: Experiment_fields_def Let_def)
  qed
  then show ?thesis
    using gate nm assms(2) by (simp add: Experiment_init_def Let_def)
qed

text \<open>
  C10: session construction rejects an input space whose keys are not exactly Strength and
  Discount in that order: \<open>Experiment.__init__\<close> raises, and the file system is as it was
  (nothing created, no grid generated). With a valid distribution the exception raised is
  the one of the key check.
\<close>

theorem input_space_keys_rejected:
  assumes "map fst isp \<noteq> [''Strength'', ''Discount'']"
  shows "(\<exists>err. Experiment_init main_path (Config_init dn (Some isp) bf df cd) fs = (Inl err, fs)) \<and>
         (dn \<in> set distributions \<and> cd = None \<longrightarrow>
            Experiment_init main_path (Config_init dn (Some isp) bf df cd) fs =
              (Inl (Exception ''config.input_space but have keys Strength/Discount''), fs))"
  using assms
  by (cases cd) (simp_all add: Experiment_init_def Config_init_def initialize_def
      Experiment_fields_def Let_def)

theorem input_space_keys_rejected_witness:
  "Experiment_init ''/m''
     (Config_init ''nn'' (Some [(''Discount'', PyList [1 / 2]), (''Strength'', PyList [50])])
        ''basefile.json'' ''experiment'' None)
     \<lparr>dirs = {}, files = [''/m/experiment_data/basefile.json'' \<mapsto> ''{}'']\<rparr> =
   (Inl (Exception ''config.input_space but have keys Strength/Discount''),
    \<lparr>dirs = {}, files = [''/m/experiment_data/basefile.json'' \<mapsto> ''{}'']\<rparr>)"
proof -
  have h: "map fst [(''Discount'', PyList [1 / 2 :: real]), (''Strength'', PyList [50])] \<noteq>
             [''Strength'', ''Discount'']"
    by simp
  have d: "''nn'' \<in> set distributions" by (simp add: distributions_def)
  show ?thesis
    using input_space_keys_rejected[OF h, of "''/m''" "''nn''" "''basefile.json''" "''experiment''" None
        "\<lparr>dirs = {}, files = [''/m/experiment_data/basefile.json'' \<mapsto> ''{}'']\<rparr>"] d
    by simp
qed

text \<open>
  C4 (amended): when a level-3 distribution is constructed and no level-1 parameter list is
  present, \<open>Experiment.__init__\<close> raises an exception that names only the first missing
  prerequisite, vb. By then the directories of the session have been created (the
  directory for the derived configurations of the requested distribution exists), but no
  file has been written or changed.
\<close>

theorem stage_gate_lvl3_names_first_missing:
  assumes "dn = ''nn.arg0.$y0'' \<or> dn = ''nn.arg1.$y0''"
    and "map fst isp = [''Strength'', ''Discount'']"
    and "\<forall>v\<in>set (map snd isp). is_list v"
    and "path_exists fs (main_path @ ''/experiment_data/'' @ bf)"
    and "\<not> path_exists fs (main_path @ ''/experiment_data/'' @ df @ ''/parameters/vb_params.txt'')"
    and "\<not> path_exists fs (main_path @ ''/experiment_data/'' @ df @ ''/parameters/nn_params.txt'')"
  shows "\<exists>fs'. Experiment_init main_path (Config_init dn (Some isp) bf df None) fs =
           (Inl (Exception (''Please tune vb before '' @ filter (\<lambda>ch. ch \<noteq> CHR ''$'') dn)), fs') \<and>
         files fs' = files fs \<and>
         path_exists fs'
           (main_path @ ''/experiment_data/'' @ df @ ''/json_data/'' @ filter (\<lambda>ch. ch \<noteq> CHR ''$'') dn)"
proof -
  let ?c = "Config_init dn (Some isp) bf df None"
  let ?e = "Experiment_fields main_path ?c [dn]"
  let ?fs' = "create_paths (paths ?e) fs"
  have "Experiment_init main_path ?c fs =
          (Inl (Exception (''Please tune vb before '' @ filter (\<lambda>ch. ch \<noteq> CHR ''$'') (distribution ?c))), ?fs')"
    by (rule lvl3_blocked_on_vb) (use assms in \<open>simp_all add: Config_init_def\<close>)
  moreover have "files ?fs' = files fs" by (rule files_create_paths)
  moreover have "path_exists ?fs'
      (main_path @ ''/experiment_data/'' @ df @ ''/json_data/'' @ filter (\<lambda>ch. ch \<noteq> CHR ''$'') dn)"
    by (rule path_exists_created)
      (simp_all add: paths_def Experiment_fields_def Config_init_def Let_def)
  ultimately show ?thesis by (simp add: Config_init_def)
qed

theorem stage_gate_lvl3_names_first_missing_witness:
  "\<exists>fs'. Experiment_init ''/m''
       (Config_init ''nn.arg0.$y0'' (Some [(''Strength'', PyList [0, 50]), (''Discount'', PyList [0, 1 / 2])])
          ''basefile.json'' ''experiment'' None)
       \<lparr>dirs = {}, files = [''/m/experiment_data/basefile.json'' \<mapsto> ''{}'']\<rparr> =
     (Inl (Exception ''Please tune vb before nn.arg0.y0''), fs') \<and>
     files fs' = [''/m/experiment_data/basefile.json'' \<mapsto> ''{}''] \<and>
     path_exists fs' ''/m/experiment_data/experiment/json_data/nn.arg0.y0''"
proof -
  let ?fs = "\<lparr>dirs = {}, files = [''/m/experiment_data/basefile.json'' \<mapsto> ''{}'']\<rparr>"
  let ?isp = "[(''Strength'', PyList [0, 50 :: real]), (''Discount'', PyList [0, 1 / 2])]"
  have h1: "''nn.arg0.$y0'' = ''nn.arg0.$y0'' \<or> ''nn.arg0.$y0'' = ''nn.arg1.$y0''" by simp
  have h2: "map fst ?isp = [''Strength'', ''Discount'']" by simp
  have h3: "\<forall>v\<in>set (map snd ?isp). is_list v" by (simp add: is_list_def)
  have h4: "path_exists ?fs (''/m'' @ ''/experiment_data/'' @ ''basefile.json'')"
    by (simp add: path_exists_def)
  have h5: "\<not> path_exists ?fs (''/m'' @ ''/experiment_data/'' @ ''experiment'' @ ''/parameters/vb_params.txt'')"
    by (simp add: path_exists_def)
  have h6: "\<not> path_exists ?fs (''/m'' @ ''/experiment_data/'' @ ''experiment'' @ ''/parameters/nn_params.txt'')"
    by (simp add: path_exists_def)
  show ?thesis
    using stage_gate_lvl3_names_first_missing[OF h1 h2 h3 h4 h5 h6] by simp
qed

text \<open>
  C4, as stated, fails: with only the base file present, constructing the session for
  \<open>nn.arg1.$y0\<close> raises an exception that names vb alone, not both missing level-1
  distributions, and the directory for the configurations of the requested distribution,
  absent before, exists afterwards.
\<close>

theorem stage_gate_reports_one_and_creates_dirs:
  "fst (Experiment_init ''/m'' (Config_init ''nn.arg1.$y0'' None ''basefile.json'' ''experiment'' None)
          \<lparr>dirs = {}, files = [''/m/experiment_data/basefile.json'' \<mapsto> ''{}'']\<rparr>) =
     Inl (Exception ''Please tune vb before nn.arg1.y0'') \<and>
   \<not> path_exists \<lparr>dirs = {}, files = [''/m/experiment_data/basefile.json'' \<mapsto> ''{}'']\<rparr>
       ''/m/experiment_data/experiment/json_data/nn.arg1.y0'' \<and>
   path_exists
     (snd (Experiment_init ''/m'' (Config_init ''nn.arg1.$y0'' None ''basefile.json'' ''experiment'' None)
          \<lparr>dirs = {}, files = [''/m/experiment_data/basefile.json'' \<mapsto> ''{}'']\<rparr>))
     ''/m/experiment_data/experiment/json_data/nn.arg1.y0''"
proof -
  let ?fs = "\<lparr>dirs = {}, files = [''/m/experiment_data/basefile.json'' \<mapsto> ''{}'']\<rparr>"
  let ?c = "Config_init ''nn.arg1.$y0'' None ''basefile.json'' ''experiment'' None"
  let ?e = "Experiment_fields ''/m'' ?c [''nn.arg1.$y0'']"
  have run: "Experiment_init ''/m'' ?c ?fs =
      (Inl (Exception (''Please tune vb before '' @ filter (\<lambda>ch. ch \<noteq> CHR ''$'') (distribution ?c))),
       create_paths (paths ?e) ?fs)"
    by (rule lvl3_blocked_on_vb)
      (simp_all add: Config_init_def default_input_space_def is_list_def path_exists_def)
  have made: "path_exists (create_paths (paths ?e) ?fs)
      ''/m/experiment_data/experiment/json_data/nn.arg1.y0''"
    by (rule path_exists_created)
      (simp_all add: paths_def Experiment_fields_def Config_init_def Let_def)
  show ?thesis using run made by (simp add: Config_init_def path_exists_def)
qed

subsection \<open>The parameter grid\<close>

lemma univ_newlines_id: "CHR 0x0D \<notin> set s \<Longrightarrow> univ_newlines s = s"
  by (induction s rule: univ_newlines.induct) auto

lemma lines_from_line:
  "CHR 0x0A \<notin> set l \<Longrightarrow>
   lines_from cur (l @ CHR 0x0A # rest) = (cur @ l @ [CHR 0x0A]) # lines_from [] rest"
  by (induction l arbitrary: cur) auto

lemma split_from_sep:
  "sep \<notin> set w \<Longrightarrow> split_from sep cur (w @ sep # rest) = (cur @ w) # split_from sep [] rest"
  by (induction w arbitrary: cur) auto

lemma split_from_none: "sep \<notin> set w \<Longrightarrow> split_from sep cur w = [cur @ w]"
  by (induction w arbitrary: cur) auto

lemma dropWhile_spaces_token:
  assumes "\<forall>c\<in>set pre. P c" and "\<forall>c\<in>set w. \<not> P c"
  shows "dropWhile P (pre @ w @ post) = (if w = [] then dropWhile P post else w @ post)"
proof -
  have "dropWhile P (pre @ w @ post) = dropWhile P (w @ post)"
    using assms(1) by (simp add: dropWhile_append2)
  also have "\<dots> = (if w = [] then dropWhile P post else w @ post)"
    using assms(2) by (cases w) auto
  finally show ?thesis .
qed

lemma strip_token:
  assumes "\<forall>c\<in>set pre. is_space c" and "\<forall>c\<in>set post. is_space c"
    and "\<forall>c\<in>set w. \<not> is_space c"
  shows "strip (pre @ w @ post) = w"
proof (cases "w = []")
  case True
  have "\<forall>c\<in>set (rev (pre @ w @ post)). is_space c" using assms(1,2) True by auto
  then have inner: "dropWhile is_space (rev (pre @ w @ post)) = []"
    by (simp only: dropWhile_eq_Nil_conv)
  show ?thesis unfolding strip_def inner using True by simp
next
  case False
  have "dropWhile is_space (rev post @ rev w @ rev pre) = rev w @ rev pre"
    using dropWhile_spaces_token[of "rev post" is_space "rev w" "rev pre"] assms(2,3) False
    by simp
  then have "strip (pre @ w @ post) = dropWhile is_space (pre @ w @ [])"
    by (simp add: strip_def)
  also have "\<dots> = w"
    using dropWhile_spaces_token[of pre is_space w "[]"] assms(1,3) False by simp
  finally show ?thesis .
qed

lemma plain_token_chars:
  "plain_token w \<Longrightarrow> CHR '','' \<notin> set w \<and> CHR 0x0A \<notin> set w \<and> CHR 0x0D \<notin> set w \<and> (\<forall>c\<in>set w. \<not> is_space c)"
  by (auto simp: plain_token_def is_space_def)

lemma parse_param_line:
  assumes "plain_token (str_of a)" "plain_token (str_of b)"
    and "pyfloat (str_of a) = Inr a" "pyfloat (str_of b) = Inr b"
  shows "parse_line pyfloat (param_line str_of (a, b)) = Inr (a, b)"
proof -
  note ta = plain_token_chars[OF assms(1)] and tb = plain_token_chars[OF assms(2)]
  have nb: "CHR '','' \<notin> set ('' '' @ str_of b @ [CHR 0x0A])" using tb by simp
  have sp: "py_split CHR '','' (param_line str_of (a, b)) = [str_of a, '' '' @ str_of b @ [CHR 0x0A]]"
    using split_from_sep[of "CHR '',''" "str_of a" "[]" "'' '' @ str_of b @ [CHR 0x0A]"]
      split_from_none[OF nb, of "[]"] ta
    by (simp add: py_split_def param_line_def)
  have s0: "strip (str_of a) = str_of a"
    using strip_token[of "[]" "[]" "str_of a"] ta by simp
  have s1: "strip (CHR '' '' # str_of b @ [CHR 0x0A]) = str_of b"
    using strip_token[of "'' ''" "[CHR 0x0A]" "str_of b"] tb by (simp add: is_space_def)
  show ?thesis
    using assms(3,4) by (simp add: parse_line_def sp py_index_def s0 s1)
qed

lemma readlines_write_params:
  assumes "\<forall>p\<in>set grid. plain_token (str_of (fst p)) \<and> plain_token (str_of (snd p))"
  shows "readlines (write_params str_of grid) = map (param_line str_of) grid"
proof -
  have "CHR 0x0D \<notin> set (param_line str_of p)" if "p \<in> set grid" for p
  proof -
    have "plain_token (str_of (fst p))" "plain_token (str_of (snd p))" using assms that by auto
    then show ?thesis using plain_token_chars by (simp add: param_line_def)
  qed
  then have cr: "CHR 0x0D \<notin> set (write_params str_of grid)"
    by (auto simp: write_params_def)
  have "lines_from [] (concat (map (param_line str_of) grid)) = map (param_line str_of) grid"
    using assms
  proof (induction grid)
    case Nil
    then show ?case by simp
  next
    case (Cons p grid)
    let ?l = "str_of (fst p) @ '', '' @ str_of (snd p)"
    have "plain_token (str_of (fst p))" "plain_token (str_of (snd p))" using Cons.prems by auto
    then have "CHR 0x0A \<notin> set ?l" using plain_token_chars by simp
    from lines_from_line[OF this, of "[]" "concat (map (param_line str_of) grid)"]
    have step: "lines_from [] (param_line str_of p @ concat (map (param_line str_of) grid)) =
        param_line str_of p # lines_from [] (concat (map (param_line str_of) grid))"
      by (simp add: param_line_def)
    have ih: "lines_from [] (concat (map (param_line str_of) grid)) = map (param_line str_of) grid"
      using Cons by simp
    show ?case by (simp only: list.map concat.simps step ih)
  qed
  then show ?thesis using cr by (simp add: readlines_def univ_newlines_id write_params_def)
qed

lemma param_pairs_product:
  "param_pairs [(''Strength'', PyList S), (''Discount'', PyList D)] = Inr (List.product S D)"
  by (cases S) (simp_all add: param_pairs_def product_concat_map)

text \<open>
  C7: for every strength list S and discount list D, \<open>create_param_space\<close> produces
  exactly |S| * |D| pairs in strength-major order (the pair of the i-th strength and the j-th
  discount is at position i * |D| + j), and the text of the parameter file is, for each
  pair in that order, the line \<^verbatim>\<open>str(strength) + ", " + str(discount) + "\n"\<close>.
\<close>

theorem create_param_space_grid:
  assumes "exp_input_space e = [(''Strength'', PyList S), (''Discount'', PyList D)]"
  shows "\<exists>pairs. create_param_space str_of e fs =
           (Inr (), fs\<lparr>files := (files fs)(param_path e \<mapsto>
              concat (map (\<lambda>p. str_of (fst p) @ '', '' @ str_of (snd p) @ [CHR 0x0A]) pairs))\<rparr>) \<and>
         length pairs = length S * length D \<and>
         (\<forall>i j. i < length S \<and> j < length D \<longrightarrow> pairs ! (i * length D + j) = (S ! i, D ! j))"
proof -
  have nth: "List.product S D ! (i * length D + j) = (S ! i, D ! j)"
    if "i < length S" "j < length D" for i j
  proof -
    have "i * length D + j < length S * length D"
    proof -
      have "i * length D + j < (i + 1) * length D" using that(2) by simp
      also have "\<dots> \<le> length S * length D" using that(1) by (intro mult_le_mono1) simp
      finally show ?thesis .
    qed
    moreover have "0 < length D" using that(2) by (cases D) auto
    then have "(i * length D + j) div length D = i" "(i * length D + j) mod length D = j"
      using that(2) by simp_all
    ultimately show ?thesis by (simp add: product_nth)
  qed
  have line: "param_line str_of = (\<lambda>p. str_of (fst p) @ '', '' @ str_of (snd p) @ [CHR 0x0A])"
    by (rule ext) (simp add: param_line_def)
  show ?thesis
    using assms nth
    by (intro exI[of _ "List.product S D"])
      (simp add: create_param_space_def param_pairs_product write_params_def line)
qed

theorem create_param_space_grid_witness:
  "create_param_space (\<lambda>x :: real. if x = 0 then ''0.0'' else if x = 50 then ''50.0'' else ''0.5'')
       (Experiment_fields ''/m''
          (Config_init ''nn'' (Some [(''Strength'', PyList [0, 50]), (''Discount'', PyList [0, 1 / 2])])
             ''basefile.json'' ''experiment'' None) [''nn''])
       \<lparr>dirs = {}, files = Map.empty\<rparr> =
     (Inr (), \<lparr>dirs = {}, files = [''/m/experiment_data/experiment/parameters/nn_params.txt'' \<mapsto>
        ''0.0, 0.0'' @ [CHR 0x0A] @ ''0.0, 0.5'' @ [CHR 0x0A] @ ''50.0, 0.0'' @ [CHR 0x0A] @
        ''50.0, 0.5'' @ [CHR 0x0A]]\<rparr>)"
proof -
  let ?e = "Experiment_fields ''/m''
          (Config_init ''nn'' (Some [(''Strength'', PyList [0, 50]), (''Discount'', PyList [0, 1 / 2])])
             ''basefile.json'' ''experiment'' None) [''nn'']"
  let ?str = "\<lambda>x :: real. if x = 0 then ''0.0'' else if x = 50 then ''50.0'' else ''0.5''"
  have h: "exp_input_space ?e = [(''Strength'', PyList [0, 50]), (''Discount'', PyList [0, 1 / 2])]"
    by (simp add: Experiment_fields_def Config_init_def Let_def)
  from create_param_space_grid[OF h, of ?str "\<lparr>dirs = {}, files = Map.empty\<rparr>"]
  obtain pairs where p:
    "create_param_space ?str ?e \<lparr>dirs = {}, files = Map.empty\<rparr> =
     (Inr (), \<lparr>dirs = {}, files = Map.empty\<rparr>\<lparr>files := (files \<lparr>dirs = {}, files = Map.empty\<rparr>)
        (param_path ?e \<mapsto>
          concat (map (\<lambda>p. ?str (fst p) @ '', '' @ ?str (snd p) @ [CHR 0x0A]) pairs))\<rparr>)"
    "length pairs = length [0, 50 :: real] * length [0, 1 / 2 :: real]"
    "\<forall>i j. i < length [0, 50 :: real] \<and> j < length [0, 1 / 2 :: real] \<longrightarrow>
       pairs ! (i * length [0, 1 / 2 :: real] + j) = ([0, 50] ! i, [0, 1 / 2] ! j)"
    by blast
  have pp: "param_path ?e = ''/m/experiment_data/experiment/parameters/nn_params.txt''"
    by (simp add: Experiment_fields_def Config_init_def Let_def)
  have n0: "pairs ! 0 = (0, 0)" using p(3)[rule_format, of 0 0] by simp
  have n1: "pairs ! 1 = (0, 1 / 2)" using p(3)[rule_format, of 0 1] by simp
  have n2: "pairs ! 2 = (50, 0)" using p(3)[rule_format, of 1 0] by (simp add: numeral_2_eq_2)
  have n3: "pairs ! 3 = (50, 1 / 2)" using p(3)[rule_format, of 1 1] by (simp add: numeral_3_eq_3)
  have l: "length pairs = 4" using p(2) by simp
  have "pairs = [pairs ! 0, pairs ! 1, pairs ! 2, pairs ! 3]"
    using l by (intro nth_equalityI) (auto simp: less_Suc_eq numeral_2_eq_2 numeral_3_eq_3
        eval_nat_numeral)
  then have eq: "pairs = [(0, 0), (0, 1 / 2), (50, 0), (50, 1 / 2)]"
    using n0 n1 n2 n3 by simp
  show ?thesis using p(1) pp unfolding eq by simp
qed

text \<open>
  C8: reading back the text that \<open>create_param_space\<close> writes for a grid yields the grid,
  provided Python's formatting and parsing of each number of the grid round-trip
  (\<open>float(str(x)) == x\<close>) and the formatted text has no comma and no white space, as the
  texts of Python's numbers do.
\<close>

theorem params_round_trip:
  assumes "\<forall>p\<in>set grid. plain_token (str_of (fst p)) \<and> plain_token (str_of (snd p)) \<and>
             pyfloat (str_of (fst p)) = Inr (fst p) \<and> pyfloat (str_of (snd p)) = Inr (snd p)"
  shows "read_params pyfloat (write_params str_of grid) = Inr grid"
proof -
  have "parse_lines pyfloat (map (param_line str_of) grid) = Inr grid"
    using assms
  proof (induction grid)
    case Nil
    then show ?case by simp
  next
    case (Cons p grid)
    have "parse_line pyfloat (param_line str_of (fst p, snd p)) = Inr (fst p, snd p)"
      by (rule parse_param_line) (use Cons.prems in auto)
    then show ?case using Cons by simp
  qed
  then show ?thesis using assms by (simp add: read_params_def readlines_write_params)
qed

theorem params_round_trip_witness:
  "read_params
     (\<lambda>s. if s = ''0.0'' then Inr 0 else if s = ''50.0'' then Inr 50
           else if s = ''0.5'' then Inr (1 / 2) else Inl ValueError)
     (write_params (\<lambda>x :: real. if x = 0 then ''0.0'' else if x = 50 then ''50.0'' else ''0.5'')
        [(0, 0), (0, 1 / 2), (50, 0), (50, 1 / 2)]) =
   Inr [(0, 0), (0, 1 / 2), (50, 0), (50, 1 / 2 :: real)]"
proof -
  let ?str = "\<lambda>x :: real. if x = 0 then ''0.0'' else if x = 50 then ''50.0'' else ''0.5''"
  let ?flt = "\<lambda>s. if s = ''0.0'' then Inr 0 else if s = ''50.0'' then Inr 50
           else if s = ''0.5'' then Inr (1 / 2 :: real) else Inl ValueError"
  have h: "\<forall>p\<in>set [(0, 0), (0, 1 / 2), (50, 0), (50, 1 / 2 :: real)].
      plain_token (?str (fst p)) \<and> plain_token (?str (snd p)) \<and>
      ?flt (?str (fst p)) = Inr (fst p) \<and> ?flt (?str (snd p)) = Inr (snd p)"
    by (simp add: plain_token_def is_space_def)
  show ?thesis using params_round_trip[OF h] .
qed

subsection \<open>Ranking\<close>





















subsection \<open>Derived configuration documents\<close>

lemma dict_set_twice: "dict_set (dict_set kvs k v) k v' = dict_set kvs k v'"
  by (induction kvs) auto

lemma map_of_dict_set: "map_of (dict_set kvs k v) k' = (if k' = k then Some v else map_of kvs k')"
  by (induction kvs) auto

lemma dict_set_commute:
  "k \<noteq> k' \<Longrightarrow> map_of kvs k \<noteq> None \<Longrightarrow>
   dict_set (dict_set kvs k' a) k b = dict_set (dict_set kvs k b) k' a"
  by (induction kvs) auto

lemma update_each_JObj:
  "update_each k f (JObj kvs) =
     (case map_of kvs k of
        None \<Rightarrow> Inl (KeyError k)
      | Some v \<Rightarrow>
          (case json_iter v of
             Inl err \<Rightarrow> Inl err
           | Inr xs \<Rightarrow>
               (case map_err f xs of
                  Inl err \<Rightarrow> Inl err
                | Inr xs' \<Rightarrow>
                    (case v of JArr _ \<Rightarrow> Inr (JObj (dict_set kvs k (JArr xs'))) | _ \<Rightarrow> Inr (JObj kvs)))))"
  by (simp add: update_each_def bind_err_def json_getitem_def json_setitem_def
      split: option.splits sum.splits json.splits)

lemma update_each_not_obj: "(\<forall>kvs. doc \<noteq> JObj kvs) \<Longrightarrow> update_each k f doc = Inl TypeError"
  by (cases doc) (simp_all add: update_each_def bind_err_def json_getitem_def)

lemma update_each_cases:
  assumes "update_each k f doc = Inr doc1"
  obtains (arr) kvs xs xs1 where "doc = JObj kvs" "map_of kvs k = Some (JArr xs)"
      "map_err f xs = Inr xs1" "doc1 = JObj (dict_set kvs k (JArr xs1))"
  | (other) kvs v ys ys1 where "doc = JObj kvs" "map_of kvs k = Some v" "\<forall>xs. v \<noteq> JArr xs"
      "json_iter v = Inr ys" "map_err f ys = Inr ys1" "doc1 = doc"
proof -
  obtain kvs where d: "doc = JObj kvs"
    using assms update_each_not_obj[of doc k f] by (cases doc) auto
  from assms obtain v where v: "map_of kvs k = Some v"
    unfolding d update_each_JObj by (auto split: option.splits)
  from assms obtain ys where ys: "json_iter v = Inr ys"
    unfolding d update_each_JObj v by (auto split: sum.splits)
  from assms obtain ys1 where ys1: "map_err f ys = Inr ys1"
    unfolding d update_each_JObj v by (auto simp: ys split: sum.splits)
  show ?thesis
  proof (cases "\<exists>xs. v = JArr xs")
    case True
    then obtain xs where xs: "v = JArr xs" by blast
    then have yx: "ys = xs" using ys by (simp add: json_iter_def)
    have m: "map_err f xs = Inr ys1" using ys1 yx by simp
    have "doc1 = JObj (dict_set kvs k (JArr ys1))"
      using assms unfolding d update_each_JObj v xs by (simp add: json_iter_def m)
    then show ?thesis using arr[OF d] v xs m by simp
  next
    case False
    have "(case v of JArr _ \<Rightarrow> Inr (JObj (dict_set kvs k (JArr ys1))) | _ \<Rightarrow> Inr (JObj kvs)) =
        (Inr doc1 :: py_error + json)"
      using assms unfolding d update_each_JObj v by (simp add: ys ys1)
    then have "doc1 = doc"
      using False d by (cases v) simp_all
    then show ?thesis using other[OF d v _ ys ys1] False by blast
  qed
qed

lemma map_err_again:
  assumes "\<And>x y. f x = Inr y \<Longrightarrow> g y = g x" and "map_err f xs = Inr ys"
  shows "map_err g ys = map_err g xs"
  using assms(2)
proof (induction xs arbitrary: ys)
  case Nil
  then show ?case by simp
next
  case (Cons x xs)
  from Cons.prems obtain y ys' where y: "f x = Inr y" "map_err f xs = Inr ys'" "ys = y # ys'"
    by (auto split: sum.splits)
  then show ?case using Cons.IH[OF y(2)] assms(1)[OF y(1)] by (simp cong: sum.case_cong)
qed

lemma map_err_idem:
  assumes "\<And>x y. f x = Inr y \<Longrightarrow> f y = Inr y" and "map_err f xs = Inr ys"
  shows "map_err f ys = Inr ys"
  using assms(2)
proof (induction xs arbitrary: ys)
  case Nil
  then show ?case by simp
next
  case (Cons x xs)
  from Cons.prems obtain y ys' where y: "f x = Inr y" "map_err f xs = Inr ys'" "ys = y # ys'"
    by (auto split: sum.splits)
  then show ?case using Cons.IH[OF y(2)] assms(1)[OF y(1)] by simp
qed

lemma map_err_elem:
  "map_err f xs = Inr ys \<Longrightarrow> y \<in> set ys \<Longrightarrow> \<exists>x\<in>set xs. f x = Inr y"
proof (induction xs arbitrary: ys)
  case Nil
  then show ?case by simp
next
  case (Cons x xs)
  from Cons.prems(1) obtain y' ys' where y: "f x = Inr y'" "map_err f xs = Inr ys'" "ys = y' # ys'"
    by (auto split: sum.splits)
  then show ?case using Cons.IH[OF y(2)] Cons.prems(2) by auto
qed

lemma update_each_again:
  assumes "update_each k f doc = Inr doc1" and "\<And>x y. f x = Inr y \<Longrightarrow> g y = g x"
  shows "update_each k g doc1 = update_each k g doc"
  using assms(1)
proof (cases rule: update_each_cases)
  case (arr kvs xs xs1)
  have "map_err g xs1 = map_err g xs" using map_err_again[OF assms(2) arr(3)] .
  then show ?thesis
    unfolding arr(1,4) update_each_JObj
    by (simp add: arr(2) map_of_dict_set json_iter_def dict_set_twice split: sum.splits)
next
  case (other kvs v ys ys1)
  then show ?thesis by simp
qed

lemma update_each_idem:
  assumes "update_each k f doc = Inr doc1" and "\<And>x y. f x = Inr y \<Longrightarrow> f y = Inr y"
  shows "update_each k f doc1 = Inr doc1"
  using assms(1)
proof (cases rule: update_each_cases)
  case (arr kvs xs xs1)
  have "map_err f xs1 = Inr xs1" using map_err_idem[OF assms(2) arr(3)] .
  then show ?thesis
    unfolding arr(1,4) update_each_JObj
    by (simp add: map_of_dict_set json_iter_def dict_set_twice)
next
  case (other kvs v ys ys1)
  then show ?thesis using assms(1) by simp
qed

lemma update_each_commute:
  assumes "k \<noteq> k'" and "update_each k' g doc = Inr c"
  shows "update_each k f c = bind_err (update_each k f doc) (update_each k' g)"
  using assms(2)
proof (cases rule: update_each_cases)
  case (arr kvs xs xs1)
  show ?thesis
  proof (cases "update_each k f doc")
    case (Inl err)
    then show ?thesis
      using assms(1) unfolding arr(1,4) update_each_JObj
      by (auto simp: map_of_dict_set bind_err_def split: option.splits sum.splits json.splits)
  next
    case (Inr d)
    from Inr show ?thesis
    proof (cases rule: update_each_cases)
      case (arr kvs2 ys ys1)
      then have kv: "kvs2 = kvs" using \<open>doc = JObj kvs\<close> by simp
      show ?thesis
        using assms(1) arr \<open>map_of kvs k' = Some (JArr xs)\<close> \<open>map_err g xs = Inr xs1\<close>
        unfolding \<open>c = JObj (dict_set kvs k' (JArr xs1))\<close> \<open>doc = JObj kvs\<close> kv update_each_JObj
        by (simp add: map_of_dict_set bind_err_def json_iter_def update_each_JObj
            dict_set_commute[of k k' kvs])
    next
      case (other kvs2 v ys ys1)
      then have kv: "kvs2 = kvs" using \<open>doc = JObj kvs\<close> by simp
      show ?thesis
        using assms(1) other \<open>map_of kvs k' = Some (JArr xs)\<close> \<open>map_err g xs = Inr xs1\<close>
        unfolding \<open>c = JObj (dict_set kvs k' (JArr xs1))\<close> \<open>doc = JObj kvs\<close> kv update_each_JObj
        by (cases v) (simp_all add: map_of_dict_set bind_err_def json_iter_def update_each_JObj)
    qed
  qed
next
  case (other kvs v ys ys1)
  show ?thesis
  proof (cases "update_each k f doc")
    case (Inl err)
    then show ?thesis using other by (simp add: bind_err_def)
  next
    case (Inr d)
    from Inr show ?thesis
    proof (cases rule: update_each_cases)
      case (arr kvs2 zs zs1)
      then have kv: "kvs2 = kvs" using other(1) by simp
      show ?thesis
        using assms(1) arr other unfolding kv update_each_JObj
        by (cases v) (simp_all add: map_of_dict_set bind_err_def json_iter_def update_each_JObj)
    next
      case other2: (other kvs2 v2 zs zs1)
      show ?thesis
        using assms(2) Inr other other2 by (simp add: bind_err_def)
    qed
  qed
qed


lemma dict_set_four:
  "a \<noteq> b \<Longrightarrow>
   dict_set (dict_set (dict_set (dict_set kvs a s) b d) a s') b d' = dict_set (dict_set kvs a s') b d'"
  by (induction kvs) (auto simp: dict_set_twice)

lemma update_dist_JObj:
  "update_dist cds s d (JObj kvs) =
     (case map_of kvs ''name'' of
        None \<Rightarrow> Inl (KeyError ''name'')
      | Some nm \<Rightarrow>
          (if (\<exists>c\<in>set cds. nm = JStr c)
           then Inr (JObj (dict_set (dict_set kvs ''strength'' (JNum s)) ''discount'' (JNum d)))
           else Inr (JObj kvs)))"
  by (simp add: update_dist_def bind_err_def json_getitem_def json_setitem_def split: option.splits)

lemma update_dist_again:
  assumes "update_dist cds s d x = Inr y"
  shows "update_dist cds s' d' y = update_dist cds s' d' x"
proof -
  obtain kvs where x: "x = JObj kvs"
    using assms by (cases x) (simp_all add: update_dist_def bind_err_def json_getitem_def)
  show ?thesis
    using assms unfolding x update_dist_JObj
    by (auto simp: update_dist_JObj map_of_dict_set dict_set_four split: option.splits if_splits)
qed

lemma rule_patterns_distinct:
  "entity_rule \<noteq> arg0_noun_rule" "entity_rule \<noteq> arg0_pron_rule"
  "entity_rule \<noteq> arg1_noun_rule" "entity_rule \<noteq> arg1_pron_rule"
  "arg0_noun_rule \<noteq> arg0_pron_rule" "arg0_noun_rule \<noteq> arg1_noun_rule"
  "arg0_noun_rule \<noteq> arg1_pron_rule" "arg0_pron_rule \<noteq> arg1_noun_rule"
  "arg0_pron_rule \<noteq> arg1_pron_rule" "arg1_noun_rule \<noteq> arg1_pron_rule"
  by (simp_all add: entity_rule_def arg0_noun_rule_def arg0_pron_rule_def arg1_noun_rule_def
      arg1_pron_rule_def)

lemma update_rule_JObj:
  "update_rule dn (JObj kvs) =
     (case map_of kvs ''rule'' of
        None \<Rightarrow> Inl (KeyError ''rule'')
      | Some r \<Rightarrow>
          (if r = JStr entity_rule then
             (if dn \<noteq> ''vb'' then
                (case map_of zdists dn of
                   None \<Rightarrow> Inl (KeyError dn)
                 | Some z \<Rightarrow> Inr (JObj (dict_set kvs ''zdists'' (JArr (map JStr z)))))
              else Inr (JObj kvs))
           else if r = JStr arg0_noun_rule then
             Inr (JObj (dict_set kvs ''base_weight'' (JNum (1 - fst num_pron))))
           else if r = JStr arg0_pron_rule then
             Inr (JObj (dict_set kvs ''base_weight'' (JNum (fst num_pron))))
           else if r = JStr arg1_noun_rule then
             Inr (JObj (dict_set kvs ''base_weight'' (JNum (1 - snd num_pron))))
           else if r = JStr arg1_pron_rule then
             Inr (JObj (dict_set kvs ''base_weight'' (JNum (snd num_pron))))
           else Inr (JObj kvs)))"
  using rule_patterns_distinct
  by (auto simp: update_rule_def bind_err_def json_getitem_def json_setitem_def set_if_def
      split: option.splits)

lemma update_rule_obj:
  assumes "update_rule dn x = Inr y"
  obtains kvs where "x = JObj kvs"
  using assms by (cases x) (simp_all add: update_rule_def bind_err_def json_getitem_def)

lemma update_rule_idem:
  assumes "update_rule dn x = Inr y"
  shows "update_rule dn y = Inr y"
proof -
  obtain kvs where x: "x = JObj kvs" using assms by (rule update_rule_obj)
  show ?thesis
    using assms unfolding x update_rule_JObj
    by (auto simp: update_rule_JObj map_of_dict_set dict_set_twice split: option.splits if_splits)
qed

lemma update_rule_weights:
  assumes "update_rule dn x = Inr y"
  shows "(json_getitem y ''rule'' = Inr (JStr arg0_noun_rule) \<longrightarrow>
            json_getitem y ''base_weight'' = Inr (JNum (1 - fst num_pron))) \<and>
         (json_getitem y ''rule'' = Inr (JStr arg0_pron_rule) \<longrightarrow>
            json_getitem y ''base_weight'' = Inr (JNum (fst num_pron))) \<and>
         (json_getitem y ''rule'' = Inr (JStr arg1_noun_rule) \<longrightarrow>
            json_getitem y ''base_weight'' = Inr (JNum (1 - snd num_pron))) \<and>
         (json_getitem y ''rule'' = Inr (JStr arg1_pron_rule) \<longrightarrow>
            json_getitem y ''base_weight'' = Inr (JNum (snd num_pron)))"
proof -
  obtain kvs where x: "x = JObj kvs" using assms by (rule update_rule_obj)
  show ?thesis
    using assms rule_patterns_distinct unfolding x update_rule_JObj
    by (auto simp: json_getitem_def map_of_dict_set split: option.splits if_splits)
qed

lemma derive_config_again:
  assumes "derive_config e doc p = Inr doc2"
  shows "derive_config e doc2 q = derive_config e doc q"
proof -
  let ?D = "''distributions''" and ?R = "''rules''"
  let ?fp = "update_dist (exp_child_dists e) (fst p) (snd p)"
  let ?fq = "update_dist (exp_child_dists e) (fst q) (snd q)"
  let ?g = "update_rule (exp_dist e)"
  from assms obtain doc1 where d1: "update_each ?D ?fp doc = Inr doc1"
    and d2: "update_each ?R ?g doc1 = Inr doc2"
    by (auto simp: derive_config_def bind_err_def split: sum.splits)
  have ne: "?D \<noteq> ?R" by simp
  have "update_each ?D ?fq doc2 = bind_err (update_each ?D ?fq doc1) (update_each ?R ?g)"
    by (rule update_each_commute[OF ne d2])
  also have "update_each ?D ?fq doc1 = update_each ?D ?fq doc"
    by (rule update_each_again[OF d1]) (rule update_dist_again)
  finally have step: "update_each ?D ?fq doc2 = derive_config e doc q"
    by (simp add: derive_config_def)
  show ?thesis
  proof (cases "derive_config e doc q")
    case (Inl err)
    then show ?thesis using step by (simp add: derive_config_def bind_err_def)
  next
    case (Inr d)
    then obtain c where "update_each ?R ?g c = Inr d"
      by (auto simp: derive_config_def bind_err_def split: sum.splits)
    then have "update_each ?R ?g d = Inr d"
      by (rule update_each_idem) (rule update_rule_idem)
    then show ?thesis using step Inr by (simp add: derive_config_def bind_err_def)
  qed
qed

lemma configs_loop_again:
  "fst (configs_loop json_dump e ps base fs) = Inr doc \<Longrightarrow>
   derive_config e doc q = derive_config e base q"
proof (induction ps arbitrary: base fs)
  case Nil
  then show ?case by simp
next
  case (Cons p ps)
  from Cons.prems obtain d where d: "derive_config e base p = Inr d"
    by (cases "derive_config e base p") auto
  then have "fst (configs_loop json_dump e ps d
      (fs\<lparr>files := (files fs)(config_file e (fst p) (snd p) \<mapsto> json_dump d)\<rparr>)) = Inr doc"
    using Cons.prems by simp
  from Cons.IH[OF this] show ?case using derive_config_again[OF d] by simp
qed

lemma derive_config_rules:
  assumes "derive_config e doc pair = Inr doc'"
    and "json_getitem doc' ''rules'' = Inr (JArr rules')" and "rule \<in> set rules'"
  shows "\<exists>x. update_rule (exp_dist e) x = Inr rule"
proof -
  from assms(1) obtain doc1 where
    d2: "update_each ''rules'' (update_rule (exp_dist e)) doc1 = Inr doc'"
    by (auto simp: derive_config_def bind_err_def split: sum.splits)
  from d2 show ?thesis
  proof (cases rule: update_each_cases)
    case (arr kvs xs xs1)
    then have "rules' = xs1" using assms(2) by (simp add: json_getitem_def map_of_dict_set)
    then show ?thesis using map_err_elem[OF arr(3)] assms(3) by blast
  next
    case (other kvs v ys ys1)
    then show ?thesis using assms(2) by (simp add: json_getitem_def)
  qed
qed

lemma configs_loop_files:
  "\<forall>p\<in>set ps. config_file e (fst p) (snd p) \<noteq> path \<Longrightarrow>
   files (snd (configs_loop json_dump e ps base fs)) path = files fs path"
proof (induction ps arbitrary: base fs)
  case Nil
  then show ?case by simp
next
  case (Cons p ps)
  show ?case
  proof (cases "derive_config e base p")
    case (Inl err)
    then show ?thesis by simp
  next
    case (Inr d)
    have ne: "path \<noteq> config_file e (fst p) (snd p)" using Cons.prems by auto
    have "\<forall>p\<in>set ps. config_file e (fst p) (snd p) \<noteq> path" using Cons.prems by simp
    from Cons.IH[OF this] show ?thesis using Inr ne by simp
  qed
qed

text \<open>
  C9: whatever distribution is being tuned (the verb distribution included) and whatever
  the pair, in the document that a derivation produces every rule whose pattern is one of
  the four pronoun/noun alternatives has the fixed weight: the subject pronoun proportion or
  its complement for the two subject rules, the object pronoun proportion or its complement
  for the two object rules.
\<close>

theorem pronoun_weights_unconditional:
  assumes "derive_config e doc pair = Inr doc'"
    and "json_getitem doc' ''rules'' = Inr (JArr rules')" and "rule \<in> set rules'"
  shows "(json_getitem rule ''rule'' = Inr (JStr arg0_noun_rule) \<longrightarrow>
            json_getitem rule ''base_weight'' = Inr (JNum (1 - fst num_pron))) \<and>
         (json_getitem rule ''rule'' = Inr (JStr arg0_pron_rule) \<longrightarrow>
            json_getitem rule ''base_weight'' = Inr (JNum (fst num_pron))) \<and>
         (json_getitem rule ''rule'' = Inr (JStr arg1_noun_rule) \<longrightarrow>
            json_getitem rule ''base_weight'' = Inr (JNum (1 - snd num_pron))) \<and>
         (json_getitem rule ''rule'' = Inr (JStr arg1_pron_rule) \<longrightarrow>
            json_getitem rule ''base_weight'' = Inr (JNum (snd num_pron)))"
proof -
  obtain x where "update_rule (exp_dist e) x = Inr rule"
    using derive_config_rules[OF assms] by blast
  then show ?thesis by (rule update_rule_weights)
qed

theorem pronoun_weights_unconditional_witness:
  "derive_config (Experiment_fields ''/m'' (Config_init ''vb'' None ''b.json'' ''x'' None) [''vb''])
     (JObj [(''distributions'', JArr [JObj [(''name'', JStr ''vb''), (''strength'', JNum 1)]]),
            (''rules'', JArr [JObj [(''rule'', JStr arg0_noun_rule), (''base_weight'', JNum 1)],
                             JObj [(''rule'', JStr arg1_pron_rule)]])])
     (5, 1 / 2) =
   Inr (JObj [(''distributions'',
                JArr [JObj [(''name'', JStr ''vb''), (''strength'', JNum 5), (''discount'', JNum (1 / 2))]]),
              (''rules'', JArr [JObj [(''rule'', JStr arg0_noun_rule), (''base_weight'', JNum (1 - fst num_pron))],
                               JObj [(''rule'', JStr arg1_pron_rule), (''base_weight'', JNum (snd num_pron))]])]) \<and>
   json_getitem (JObj [(''rule'', JStr arg1_pron_rule), (''base_weight'', JNum (snd num_pron))])
     ''base_weight'' = Inr (JNum (snd num_pron))"
proof -
  let ?e = "Experiment_fields ''/m'' (Config_init ''vb'' None ''b.json'' ''x'' None) [''vb'']"
  let ?doc = "JObj [(''distributions'', JArr [JObj [(''name'', JStr ''vb''), (''strength'', JNum 1)]]),
            (''rules'', JArr [JObj [(''rule'', JStr arg0_noun_rule), (''base_weight'', JNum 1)],
                             JObj [(''rule'', JStr arg1_pron_rule)]])]"
  let ?r1 = "JObj [(''rule'', JStr arg0_noun_rule), (''base_weight'', JNum (1 - fst num_pron))]"
  let ?r2 = "JObj [(''rule'', JStr arg1_pron_rule), (''base_weight'', JNum (snd num_pron))]"
  let ?doc' = "JObj [(''distributions'',
                JArr [JObj [(''name'', JStr ''vb''), (''strength'', JNum 5), (''discount'', JNum (1 / 2))]]),
              (''rules'', JArr [?r1, ?r2])]"
  have h1: "derive_config ?e ?doc (5, 1 / 2) = Inr ?doc'"
    using rule_patterns_distinct
    by (simp add: derive_config_def update_each_JObj json_iter_def update_dist_JObj update_rule_JObj
        bind_err_def Experiment_fields_def Config_init_def Let_def)
  have h2: "json_getitem ?doc' ''rules'' = Inr (JArr [?r1, ?r2])"
    by (simp add: json_getitem_def)
  have h3: "?r2 \<in> set [?r1, ?r2]" by simp
  have "json_getitem ?r2 ''rule'' = Inr (JStr arg1_pron_rule)" by (simp add: json_getitem_def)
  then have "json_getitem ?r2 ''base_weight'' = Inr (JNum (snd num_pron))"
    using pronoun_weights_unconditional[OF h1 h2 h3] by blast
  then show ?thesis using h1 by simp
qed

text \<open>
  C3 (amended): derivation makes no copy. Each pass of the loop updates the loaded base
  document in place, so after a pass the document in memory differs from the base. The
  base file itself is left as it was, provided it is not one of the paths the derived
  documents are written to, and after any number of passes the document derived for a pair
  is the one that derivation from the unmodified base gives for that pair.
\<close>

theorem derive_updates_in_place_benign:
  assumes "fst (configs_loop json_dump e ps base fs) = Inr doc"
    and "\<forall>p\<in>set ps. config_file e (fst p) (snd p) \<noteq> exp_base_file e"
  shows "derive_config e doc q = derive_config e base q \<and>
         files (snd (configs_loop json_dump e ps base fs)) (exp_base_file e) =
           files fs (exp_base_file e)"
  using configs_loop_again[OF assms(1)] configs_loop_files[OF assms(2)] by simp

theorem derive_updates_in_place_benign_witness:
  "fst (configs_loop (\<lambda>d. ''{}'')
          (Experiment_fields ''/m'' (Config_init ''nn'' None ''b.json'' ''x'' None) [''nn''])
          [(5, 1 / 2)]
          (JObj [(''distributions'', JArr [JObj [(''name'', JStr ''nn''), (''strength'', JNum 1)]]),
                 (''rules'', JArr [])])
          \<lparr>dirs = {}, files = [''/m/experiment_data/b.json'' \<mapsto> ''{}'']\<rparr>) =
     Inr (JObj [(''distributions'',
                  JArr [JObj [(''name'', JStr ''nn''), (''strength'', JNum 5), (''discount'', JNum (1 / 2))]]),
                (''rules'', JArr [])]) \<and>
   derive_config (Experiment_fields ''/m'' (Config_init ''nn'' None ''b.json'' ''x'' None) [''nn''])
     (JObj [(''distributions'',
              JArr [JObj [(''name'', JStr ''nn''), (''strength'', JNum 5), (''discount'', JNum (1 / 2))]]),
            (''rules'', JArr [])])
     (7, 1 / 4) =
   derive_config (Experiment_fields ''/m'' (Config_init ''nn'' None ''b.json'' ''x'' None) [''nn''])
     (JObj [(''distributions'', JArr [JObj [(''name'', JStr ''nn''), (''strength'', JNum 1)]]),
            (''rules'', JArr [])])
     (7, 1 / 4)"
proof -
  let ?e = "Experiment_fields ''/m'' (Config_init ''nn'' None ''b.json'' ''x'' None) [''nn'']"
  let ?base = "JObj [(''distributions'', JArr [JObj [(''name'', JStr ''nn''), (''strength'', JNum 1)]]),
                 (''rules'', JArr [])]"
  let ?fs = "\<lparr>dirs = {}, files = [''/m/experiment_data/b.json'' \<mapsto> ''{}'']\<rparr>"
  let ?doc = "JObj [(''distributions'',
                  JArr [JObj [(''name'', JStr ''nn''), (''strength'', JNum 5), (''discount'', JNum (1 / 2))]]),
                (''rules'', JArr [])]"
  have h1: "fst (configs_loop (\<lambda>d. ''{}'') ?e [(5, 1 / 2)] ?base ?fs) = Inr ?doc"
    by (simp add: derive_config_def update_each_JObj json_iter_def update_dist_JObj
        bind_err_def Experiment_fields_def Config_init_def Let_def)
  have h2: "\<forall>p\<in>set [(5, 1 / 2)]. config_file ?e (fst p) (snd p) \<noteq> exp_base_file ?e"
    by (simp add: config_file_def Experiment_fields_def Config_init_def Let_def)
  show ?thesis
    using derive_updates_in_place_benign[OF h1 h2, of "(7, 1 / 4)"] h1 by simp
qed

text \<open>
  C3, as stated, fails: one derivation for the pair (5, 1/2) leaves the loaded document
  with the strength and discount of that pair, which is not the base document.
\<close>

theorem derive_mutates_loaded_document:
  "derive_config (Experiment_fields ''/m'' (Config_init ''nn'' None ''b.json'' ''x'' None) [''nn''])
     (JObj [(''distributions'', JArr [JObj [(''name'', JStr ''nn''), (''strength'', JNum 1)]]),
            (''rules'', JArr [])])
     (5, 1 / 2) =
   Inr (JObj [(''distributions'',
                JArr [JObj [(''name'', JStr ''nn''), (''strength'', JNum 5), (''discount'', JNum (1 / 2))]]),
              (''rules'', JArr [])]) \<and>
   JObj [(''distributions'',
           JArr [JObj [(''name'', JStr ''nn''), (''strength'', JNum 5), (''discount'', JNum (1 / 2))]]),
         (''rules'', JArr [])] \<noteq>
   JObj [(''distributions'', JArr [JObj [(''name'', JStr ''nn''), (''strength'', JNum 1)]]),
         (''rules'', JArr [])]"
  by (simp add: derive_config_def update_each_JObj json_iter_def update_dist_JObj
      bind_err_def Experiment_fields_def Config_init_def Let_def)

subsection \<open>Evaluation with a missing output file\<close>

lemma out_ne_modified: "out_file e s d \<noteq> modified_file e s' d'"
  by (simp add: out_file_def modified_file_def)

lemma peranto_loop_missing:
  assumes "\<exists>p\<in>set params. files fs (out_file e (fst p) (snd p)) = None"
  shows "fst (peranto_loop store_get e params data fs out) = None"
  using assms
proof (induction params arbitrary: data fs out)
  case Nil
  then show ?case by simp
next
  case (Cons p params)
  obtain s d where p: "p = (s, d)" by (cases p)
  show ?case
  proof (cases "files fs (out_file e s d)")
    case None
    then show ?thesis using p by simp
  next
    case (Some content)
    show ?thesis
    proof (cases "read_triples (readlines content)")
      case (Inl err)
      then show ?thesis using p Some by simp
    next
      case (Inr triples)
      let ?fs' = "fs\<lparr>files := (files fs)(modified_file e s d
                                           \<mapsto> modified_text (store_get (exp_dist e) triples))\<rparr>"
      from Cons.prems p Some obtain q where q: "q \<in> set params" "files fs (out_file e (fst q) (snd q)) = None"
        by auto
      then have "files ?fs' (out_file e (fst q) (snd q)) = None"
        using out_ne_modified by simp
      then have "\<exists>p\<in>set params. files ?fs' (out_file e (fst p) (snd p)) = None" using q(1) by blast
      from Cons.IH[OF this] show ?thesis using p Some Inr by (simp add: Let_def)
    qed
  qed
qed

lemma run_missing_file:
  assumes "read_parameters pyfloat e fs = Inr params"
    and "\<exists>p\<in>set params. files fs (out_file e (fst p) (snd p)) = None"
  shows "fst (run str_of fl fmean store_get pyfloat treebank e k fs) = Inl AttributeError"
proof -
  obtain fs' out where "peranto_loop store_get e params [] fs [] = (None, fs', out)"
    using peranto_loop_missing[OF assms(2), of store_get "[]" "[]"]
    by (cases "peranto_loop store_get e params [] fs []") auto
  then show ?thesis using assms(1)
    by (simp add: run_def get_singleton_prop_def get_peranto_data_def)
qed

text \<open>
  C1: the claim says that a pair whose output file is absent is dropped and the evaluation
  completes over the remaining pairs. In the source the handler returns None from
  \<open>get_peranto_data\<close> as a whole, and \<open>get_singleton_prop\<close> then fails on
  \<^verbatim>\<open>data.items()\<close>: with four pairs in the parameter list and the output file of the
  last one absent, \<open>run\<close> prints the message for that file and raises AttributeError; the
  three present files have been filtered, and no distance report is written.
\<close>

theorem run_aborts_on_one_missing_file:
  "run (\<lambda>x. ''0'') fl fmean (\<lambda>d ts. map (\<lambda>(s, v, ob). [s]) ts)
     (\<lambda>s. if s = ''0.0'' then Inr 0 else if s = ''50.0'' then Inr 50
           else if s = ''0.5'' then Inr (1 / 2) else Inl ValueError)
     [[''he'']]
     (Experiment_fields ''/m'' (Config_init ''nn'' None ''b.json'' ''x'' None) [''nn''])
     3
     \<lparr>dirs = {}, files =
        [''/m/experiment_data/x/parameters/nn_params.txt'' \<mapsto>
           ''0.0, 0.0'' @ [CHR 0x0A] @ ''0.0, 0.5'' @ [CHR 0x0A] @ ''50.0, 0.0'' @ [CHR 0x0A] @
           ''50.0, 0.5'' @ [CHR 0x0A],
         ''/m/experiment_data/x/peranto_output/nn/peranto_nn_s0_d0.txt'' \<mapsto> ''he eat it'' @ [CHR 0x0A],
         ''/m/experiment_data/x/peranto_output/nn/peranto_nn_s0_d50.txt'' \<mapsto> ''he eat it'' @ [CHR 0x0A],
         ''/m/experiment_data/x/peranto_output/nn/peranto_nn_s50_d0.txt'' \<mapsto> ''he eat it'' @ [CHR 0x0A]]\<rparr> =
   (Inl AttributeError,
    \<lparr>dirs = {}, files =
        [''/m/experiment_data/x/parameters/nn_params.txt'' \<mapsto>
           ''0.0, 0.0'' @ [CHR 0x0A] @ ''0.0, 0.5'' @ [CHR 0x0A] @ ''50.0, 0.0'' @ [CHR 0x0A] @
           ''50.0, 0.5'' @ [CHR 0x0A],
         ''/m/experiment_data/x/peranto_output/nn/peranto_nn_s0_d0.txt'' \<mapsto> ''he eat it'' @ [CHR 0x0A],
         ''/m/experiment_data/x/peranto_output/nn/peranto_nn_s0_d50.txt'' \<mapsto> ''he eat it'' @ [CHR 0x0A],
         ''/m/experiment_data/x/peranto_output/nn/peranto_nn_s50_d0.txt'' \<mapsto> ''he eat it'' @ [CHR 0x0A],
         ''/m/experiment_data/x/peranto_output/nn modified/peranto_nn_s0_d0_modified.txt'' \<mapsto>
           ''he '' @ [CHR 0x0A],
         ''/m/experiment_data/x/peranto_output/nn modified/peranto_nn_s0_d50_modified.txt'' \<mapsto>
           ''he '' @ [CHR 0x0A],
         ''/m/experiment_data/x/peranto_output/nn modified/peranto_nn_s50_d0_modified.txt'' \<mapsto>
           ''he '' @ [CHR 0x0A]]\<rparr>,
    [''The file at path /m/experiment_data/x/peranto_output/nn/peranto_nn_s50_d50.txt was not found.''])"
proof -
  have rp: "read_parameters
     (\<lambda>s. if s = ''0.0'' then Inr 0 else if s = ''50.0'' then Inr 50
           else if s = ''0.5'' then Inr (1 / 2) else Inl ValueError)
     (Experiment_fields ''/m'' (Config_init ''nn'' None ''b.json'' ''x'' None) [''nn''])
     \<lparr>dirs = {}, files =
        [''/m/experiment_data/x/parameters/nn_params.txt'' \<mapsto>
           ''0.0, 0.0'' @ [CHR 0x0A] @ ''0.0, 0.5'' @ [CHR 0x0A] @ ''50.0, 0.0'' @ [CHR 0x0A] @
           ''50.0, 0.5'' @ [CHR 0x0A],
         ''/m/experiment_data/x/peranto_output/nn/peranto_nn_s0_d0.txt'' \<mapsto> ''he eat it'' @ [CHR 0x0A],
         ''/m/experiment_data/x/peranto_output/nn/peranto_nn_s0_d50.txt'' \<mapsto> ''he eat it'' @ [CHR 0x0A],
         ''/m/experiment_data/x/peranto_output/nn/peranto_nn_s50_d0.txt'' \<mapsto> ''he eat it'' @ [CHR 0x0A]]\<rparr> =
     Inr [(0, 0), (0, 1 / 2), (50, 0), (50, 1 / 2 :: real)]"
    by (simp add: read_parameters_def read_params_def readlines_def parse_line_def py_split_def
        py_index_def strip_def is_space_def Experiment_fields_def Config_init_def Let_def)
  show ?thesis
    unfolding run_def get_singleton_prop_def get_peranto_data_def rp
    by (simp add: Experiment_fields_def Config_init_def Let_def out_file_def
        modified_file_def py_int_def str_int_def digit_char_def readlines_def read_triple_def
        py_split_ws_def py_index_def is_space_def modified_text_def)
qed

end
